theory Spec2Isabelle
  imports Complex_Main "HOL-Library.Multiset"
begin

section \<open>SAFE scoring of tmap (\<^verbatim>\<open>tmap/netx/SAFE.py\<close>)\<close>

text \<open>
  The development embeds the functions of \<^verbatim>\<open>tmap/netx/SAFE.py\<close>: \<^verbatim>\<open>_permutation\<close>,
  \<^verbatim>\<open>convertor\<close>, \<^verbatim>\<open>_SAFE\<close>, \<^verbatim>\<open>SAFE_batch\<close>, \<^verbatim>\<open>get_significant_nodes\<close> and
  \<^verbatim>\<open>get_SAFE_summary\<close>. Isabelle names cannot start with an underscore, so \<^verbatim>\<open>_permutation\<close>,
  \<^verbatim>\<open>_SAFE\<close> and \<^verbatim>\<open>_safe_div\<close> are \<open>permutation\<close>, \<open>SAFE\<close> and \<open>safe_div\<close> here.
\<close>

subsection \<open>Python errors\<close>

datatype py_error =
    AssertionError      \<comment> \<open>a failed \<^verbatim>\<open>assert\<close>\<close>
  | SyntaxError         \<comment> \<open>raised by \<^verbatim>\<open>_SAFE\<close> for an unknown \<^verbatim>\<open>_mode\<close>\<close>
  | KeyError            \<comment> \<open>a missing dictionary key or label\<close>
  | IndexError          \<comment> \<open>\<^verbatim>\<open>graph._SAFE[-1]\<close> on an empty history, a mask of the wrong shape\<close>
  | ValueError          \<comment> \<open>labels or operands that do not fit the shape of the values\<close>
  | ShapeMismatch       \<comment> \<open>the spec's error of the metadata verification\<close>
  | ExternalError nat   \<comment> \<open>whatever a collaborator (Graph, \<^verbatim>\<open>verify_metadata\<close>) raises\<close>
  | BadAddress          \<comment> \<open>no Python error: an address that holds no table (object-level model only)\<close>

subsection \<open>numpy floating-point values\<close>

text \<open>
  A float of numpy is a number, an infinity or not-a-number. Rounding is not modelled: the
  finite values are the real numbers, and there is one zero (the sign of a zero is not
  kept). The operations follow numpy: a division by zero is no error, it gives an infinity
  or, for \<open>0 / 0\<close>, not-a-number; every comparison with not-a-number is false.
\<close>

datatype npfloat = Fin real | PInf | NInf | NaN

fun np_div :: "npfloat \<Rightarrow> npfloat \<Rightarrow> npfloat" where
  "np_div NaN y = NaN"
| "np_div x NaN = NaN"
| "np_div (Fin x) (Fin y) =
     (if y = 0 then (if x = 0 then NaN else if 0 < x then PInf else NInf) else Fin (x / y))"
| "np_div (Fin x) PInf = Fin 0"
| "np_div (Fin x) NInf = Fin 0"
| "np_div PInf (Fin y) = (if 0 \<le> y then PInf else NInf)"
| "np_div NInf (Fin y) = (if 0 \<le> y then NInf else PInf)"
| "np_div PInf PInf = NaN"
| "np_div PInf NInf = NaN"
| "np_div NInf PInf = NaN"
| "np_div NInf NInf = NaN"

fun np_le :: "npfloat \<Rightarrow> npfloat \<Rightarrow> bool" where
  "np_le NaN y = False"
| "np_le x NaN = False"
| "np_le NInf y = True"
| "np_le x PInf = True"
| "np_le (Fin x) (Fin y) = (x \<le> y)"
| "np_le PInf y = False"
| "np_le x NInf = False"

definition np_ge :: "npfloat \<Rightarrow> npfloat \<Rightarrow> bool" where
  "np_ge x y = np_le y x"

definition np_gt :: "npfloat \<Rightarrow> npfloat \<Rightarrow> bool" where
  "np_gt x y = (np_le y x \<and> x \<noteq> y)"

definition np_minimum :: "npfloat \<Rightarrow> npfloat \<Rightarrow> npfloat" where
  \<comment> \<open>\<^verbatim>\<open>np.minimum\<close>: not-a-number propagates\<close>
  "np_minimum x y = (if x = NaN \<or> y = NaN then NaN else if np_le x y then x else y)"

fun np_log10 :: "npfloat \<Rightarrow> npfloat" where
  "np_log10 (Fin x) = (if 0 < x then Fin (log 10 x) else if x = 0 then NInf else NaN)"
| "np_log10 PInf = PInf"
| "np_log10 NInf = NaN"
| "np_log10 NaN = NaN"

fun np_add :: "npfloat \<Rightarrow> npfloat \<Rightarrow> npfloat" where
  "np_add NaN y = NaN"
| "np_add x NaN = NaN"
| "np_add (Fin x) (Fin y) = Fin (x + y)"
| "np_add PInf NInf = NaN"
| "np_add NInf PInf = NaN"
| "np_add PInf y = PInf"
| "np_add x PInf = PInf"
| "np_add NInf y = NInf"
| "np_add x NInf = NInf"

subsection \<open>Data frames\<close>

text \<open>
  A label of a pandas axis: graph nodes are numbered, features and samples are named.
  \<open>NullL\<close> is a missing label (\<^verbatim>\<open>None\<close>, \<^verbatim>\<open>nan\<close>), the only label \<^verbatim>\<open>pd.isnull\<close> accepts.
\<close>

datatype label = IntL int | StrL string | NullL

fun pd_isnull :: "label \<Rightarrow> bool" where
  "pd_isnull NullL = True"
| "pd_isnull l = False"

text \<open>
  A \<^verbatim>\<open>pd.DataFrame\<close>: the row labels, the column labels and the values, stored by column
  (\<open>colvals fr ! j ! i\<close> is the cell of row \<open>i\<close> and column \<open>j\<close>), since the code works on the
  frames column by column (\<^verbatim>\<open>apply(..., axis=0)\<close>). A Python dictionary is an association list
  whose keys are looked up from the front; the labels of an axis are taken to be distinct.
\<close>

record 'v frame =
  index :: "label list"
  columns :: "label list"
  colvals :: "'v list list"

definition nrows :: "'v frame \<Rightarrow> nat" where
  \<comment> \<open>\<^verbatim>\<open>df.shape[0]\<close>\<close>
  "nrows fr = length (index fr)"

definition ncols :: "'v frame \<Rightarrow> nat" where
  \<comment> \<open>\<^verbatim>\<open>df.shape[1]\<close>\<close>
  "ncols fr = length (columns fr)"

definition wf_frame :: "'v frame \<Rightarrow> bool" where
  \<comment> \<open>the values fit the labels\<close>
  "wf_frame fr =
     (length (colvals fr) = length (columns fr) \<and>
      list_all (\<lambda>col. length col = length (index fr)) (colvals fr))"

definition frame_apply :: "('a list \<Rightarrow> 'b list) \<Rightarrow> 'a frame \<Rightarrow> 'b frame" where
  \<comment> \<open>\<^verbatim>\<open>df.apply(f, axis=0)\<close>: \<open>f\<close> on every column, the labels kept\<close>
  "frame_apply f fr = \<lparr>index = index fr, columns = columns fr, colvals = map f (colvals fr)\<rparr>"

text \<open>
  What a pandas call may hand back instead of a table: a \<^verbatim>\<open>pd.Series\<close>, with its labels and
  its values.
\<close>

datatype 'v pd_object = Frame "'v frame" | Series "label list" "'v list"

subsection \<open>The multiple-testing correction\<close>

text \<open>
  Modelled from the spec: \<^verbatim>\<open>multipletests(col, method='fdr_bh')[1]\<close> is a routine of the
  statsmodels library, of which the repository has no source. The spec calls it "a
  false-discovery-rate multiple-testing correction" over one column; this is the
  Benjamini-Hochberg adjustment: with \<open>n\<close> p-values, the adjusted value of \<open>p\<close> is the least
  \<open>q * n / rank q\<close> over the p-values \<open>q \<ge> p\<close>, where \<open>rank q\<close> counts the p-values that are
  at most \<open>q\<close>, and it is cut at \<open>1\<close>.
\<close>

fun np_min_list :: "npfloat list \<Rightarrow> npfloat" where
  "np_min_list [] = NaN"
| "np_min_list [x] = x"
| "np_min_list (x # y # zs) = np_minimum x (np_min_list (y # zs))"

definition bh_rank :: "npfloat list \<Rightarrow> npfloat \<Rightarrow> nat" where
  "bh_rank ps q = length (filter (\<lambda>r. np_le r q) ps)"

definition bh_raw :: "npfloat list \<Rightarrow> npfloat \<Rightarrow> npfloat" where
  \<comment> \<open>the p-value divided by its empirical distribution factor \<open>rank / n\<close>\<close>
  "bh_raw ps q = np_div q (Fin (real (bh_rank ps q) / real (length ps)))"

definition fdr_bh :: "npfloat list \<Rightarrow> npfloat list" where
  "fdr_bh ps =
     map (\<lambda>p. let m = np_min_list (map (bh_raw ps) (filter (\<lambda>q. np_le p q) ps))
              in if np_gt m (Fin 1) then Fin 1 else m) ps"

subsection \<open>\<^verbatim>\<open>convertor\<close>\<close>

definition min_p_value :: "nat \<Rightarrow> real" where
  \<comment> \<open>\<^verbatim>\<open>min_p_value = 1.0 / (n_iter + 1.0)\<close>\<close>
  "min_p_value n_iter = 1 / (real n_iter + 1)"

definition p_value_df :: "nat frame \<Rightarrow> nat \<Rightarrow> npfloat frame" where
  \<comment> \<open>\<^verbatim>\<open>p_value_df = neighborhood_count_df.div(n_iter)\<close>, then
      \<^verbatim>\<open>p_value_df.where(p_value_df >= min_p_value, min_p_value)\<close>: a cell is kept where the
      comparison holds and replaced by \<^verbatim>\<open>min_p_value\<close> elsewhere\<close>
  "p_value_df compared_count n_iter =
     frame_apply
       (map (\<lambda>c. let p = np_div (Fin (real c)) (Fin (real n_iter))
                 in if np_ge p (Fin (min_p_value n_iter)) then p else Fin (min_p_value n_iter)))
       compared_count"

definition p_values_fdr_bh :: "nat frame \<Rightarrow> nat \<Rightarrow> npfloat frame" where
  \<comment> \<open>\<^verbatim>\<open>p_value_df.apply(lambda col: multipletests(col, method='fdr_bh')[1], axis=0)\<close>\<close>
  "p_values_fdr_bh compared_count n_iter = frame_apply fdr_bh (p_value_df compared_count n_iter)"

definition convertor :: "nat frame \<Rightarrow> nat \<Rightarrow> npfloat frame" where
  \<comment> \<open>\<^verbatim>\<open>p_values_fdr_bh.apply(lambda col: np.log10(col) / np.log10(min_p_value), axis=0)\<close>\<close>
  "convertor compared_count n_iter =
     frame_apply (map (\<lambda>q. np_div (np_log10 q) (np_log10 (Fin (min_p_value n_iter)))))
       (p_values_fdr_bh compared_count n_iter)"

subsection \<open>The Graph collaborator\<close>

text \<open>A neighbourhood mapping is a dictionary from a node to the nodes around it.\<close>

type_synonym neighborhoods = "(label \<times> label list) list"

text \<open>A record of the history \<^verbatim>\<open>graph._SAFE\<close>, as \<^verbatim>\<open>SAFE_batch\<close> builds it.\<close>

record safe_params =
  par_shuffle_by :: string
  par_agg_mode :: string
  par_nr_threshold :: real
  par_n_iter :: nat
  par_data :: "npfloat frame"
  par_mode :: string

text \<open>
  Modelled from the spec: the class \<^verbatim>\<open>tmap.tda.Graph.Graph\<close> is not among the sources. Section 6
  of the spec lists what the graph must expose; every operation is a field here, and each may
  raise. \<open>neighborhood_score\<close> and \<open>transform_sn\<close> take whatever \<^verbatim>\<open>_SAFE\<close> and \<^verbatim>\<open>_permutation\<close>
  pass on: a table, a Series, and for \<open>neighborhood_score\<close> also \<open>None\<close>. Matrices of scores are
  stored by column, like the frames; a score is a numpy float, so it may be not-a-number (the
  mean over an empty neighbourhood, say).
\<close>

record graph =
  nodes :: "label list"
  get_neighborhoods :: "real \<Rightarrow> py_error + neighborhoods"
  neighborhood_score :: "real pd_object option \<Rightarrow> neighborhoods \<Rightarrow> string \<Rightarrow> py_error + npfloat list list"
  transform_sn :: "real pd_object \<Rightarrow> string \<Rightarrow> py_error + real frame"
  node2sample :: "label set \<Rightarrow> py_error + label list"
  rawX_rows :: nat                   \<comment> \<open>\<^verbatim>\<open>graph.rawX.shape[0]\<close>\<close>
  SAFE_log :: "safe_params list"     \<comment> \<open>\<^verbatim>\<open>graph._SAFE\<close>\<close>

definition add_safe :: "graph \<Rightarrow> safe_params \<Rightarrow> graph" where
  \<comment> \<open>\<^verbatim>\<open>graph._add_safe(params)\<close> appends to the history\<close>
  "add_safe g params = g\<lparr>SAFE_log := SAFE_log g @ [params]\<rparr>"

subsection \<open>\<^verbatim>\<open>_permutation\<close>\<close>

text \<open>
  \<^verbatim>\<open>np.random.permutation(col)\<close> returns a new array with the entries of \<^verbatim>\<open>col\<close> in the order
  the generator chose. The choice is an argument of the model: \<open>draw\<close> lists the positions
  \<open>0 ..< len(col)\<close> in the chosen order.
\<close>

definition np_random_permutation :: "nat list \<Rightarrow> 'a list \<Rightarrow> 'a list" where
  "np_random_permutation draw col = map (\<lambda>k. col ! k) draw"

definition permute_columns :: "(nat \<Rightarrow> nat list) \<Rightarrow> 'a frame \<Rightarrow> 'a frame" where
  \<comment> \<open>the table that \<^verbatim>\<open>p_data.apply(lambda col: np.random.permutation(col), axis=0)\<close> builds
      when no axis is empty (see \<open>apply_permutation\<close> below); column \<open>j\<close> gets the draw
      \<open>draw j\<close>\<close>
  "permute_columns draw fr =
     \<lparr>index = index fr, columns = columns fr,
      colvals = map (\<lambda>(j, col). np_random_permutation (draw j) col) (enumerate 0 (colvals fr))\<rparr>"

text \<open>
  \<^verbatim>\<open>DataFrame.apply\<close> with the permutation. On a table with rows and columns it builds the
  table of the permuted columns, with the labels of the input. When an axis is empty, pandas
  calls the function on an empty Series instead, sees that the result is no Series and takes
  the function for a reduction: with no column the result is the empty Series; with columns
  but no row it builds a Series of the (empty) result over the column labels, which raises
  \<^verbatim>\<open>ValueError\<close>.
\<close>

definition apply_permutation :: "(nat \<Rightarrow> nat list) \<Rightarrow> 'a frame \<Rightarrow> py_error + 'a pd_object" where
  "apply_permutation draw fr =
     (if ncols fr = 0 then Inr (Series [] [])
      else if nrows fr = 0 then Inl ValueError
      else Inr (Frame (permute_columns draw fr)))"

definition permutation ::
  "(nat \<Rightarrow> nat list) \<Rightarrow> real frame \<Rightarrow> graph \<Rightarrow> string \<Rightarrow> py_error + real pd_object option" where
  \<comment> \<open>\<open>p_data\<close> is the deep copy of \<open>data\<close>; the result is \<open>None\<close> when no branch returns\<close>
  "permutation draw data g shuffle_by =
     (let p_data = data in
      if shuffle_by = ''node'' then
        if nrows p_data \<noteq> length (nodes g) then Inl AssertionError
        else (case apply_permutation draw p_data of
                Inl e \<Rightarrow> Inl e
              | Inr p \<Rightarrow> Inr (Some p))
      else if shuffle_by = ''sample'' then
        if nrows p_data \<noteq> rawX_rows g then Inl AssertionError
        else (case apply_permutation draw p_data of
                Inl e \<Rightarrow> Inl e
              | Inr p \<Rightarrow>
                  (case transform_sn g p ''s2n'' of
                     Inl e \<Rightarrow> Inl e
                   | Inr t \<Rightarrow> Inr (Some (Frame t))))
      else Inr None)"

text \<open>
  The same call on objects: tables live in cells, a caller holds the address of \<^verbatim>\<open>data\<close>.
  \<^verbatim>\<open>data.copy(deep=True)\<close> makes a new cell, everything after it reads the copy, and the object
  returned is a new cell again.
\<close>

record heap =
  cells :: "nat \<Rightarrow> real pd_object option"
  next_addr :: nat

definition alloc :: "heap \<Rightarrow> real pd_object \<Rightarrow> nat \<times> heap" where
  "alloc h obj = (next_addr h, h\<lparr>cells := (cells h)(next_addr h \<mapsto> obj), next_addr := Suc (next_addr h)\<rparr>)"

definition permutation_call ::
  "(nat \<Rightarrow> nat list) \<Rightarrow> heap \<Rightarrow> nat \<Rightarrow> graph \<Rightarrow> string \<Rightarrow> heap \<times> (py_error + nat option)" where
  "permutation_call draw h a g shuffle_by =
     (case cells h a of
        Some (Frame data) \<Rightarrow>
          let (c, h1) = alloc h (Frame data) in
          (case cells h1 c of
             Some (Frame p_data) \<Rightarrow>
               (case permutation draw p_data g shuffle_by of
                  Inl e \<Rightarrow> (h1, Inl e)
                | Inr None \<Rightarrow> (h1, Inr None)
                | Inr (Some r) \<Rightarrow> let (d, h2) = alloc h1 r in (h2, Inr (Some d)))
           | _ \<Rightarrow> (h1, Inl BadAddress))
      | _ \<Rightarrow> (h, Inl BadAddress))"

subsection \<open>\<^verbatim>\<open>_SAFE\<close>\<close>

definition zeros :: "nat \<Rightarrow> nat \<Rightarrow> nat list list" where
  \<comment> \<open>\<^verbatim>\<open>np.zeros((rows, cols))\<close>, by column\<close>
  "zeros rows cols = replicate cols (replicate rows 0)"

definition same_shape :: "'a list list \<Rightarrow> 'b list list \<Rightarrow> bool" where
  "same_shape A B = (map length A = map length B)"

definition mask_incr ::
  "(npfloat \<Rightarrow> npfloat \<Rightarrow> bool) \<Rightarrow> npfloat list list \<Rightarrow> npfloat list list \<Rightarrow> nat list list \<Rightarrow>
   nat list list" where
  \<comment> \<open>\<^verbatim>\<open>counts[p_scores cmp scores] += 1\<close> on matrices of one shape\<close>
  "mask_incr cmp p_scores scores counts =
     map (\<lambda>((pc, sc), cc). map (\<lambda>((p, s), c). if cmp p s then c + 1 else c) (zip (zip pc sc) cc))
         (zip (zip p_scores scores) counts)"

definition node_data_of :: "graph \<Rightarrow> real frame \<Rightarrow> string \<Rightarrow> py_error + real frame" where
  \<comment> \<open>the \<^verbatim>\<open>if shuffle_by == 'sample'\<close> at the head of \<^verbatim>\<open>_SAFE\<close>\<close>
  "node_data_of g data shuffle_by =
     (if shuffle_by = ''sample'' then transform_sn g (Frame data) ''s2n'' else Inr data)"

definition tally ::
  "npfloat list list \<Rightarrow> npfloat list list \<Rightarrow> nat list list \<times> nat list list \<Rightarrow>
   py_error + nat list list \<times> nat list list" where
  \<comment> \<open>\<^verbatim>\<open>neighborhood_enrichments[p_neighborhood_scores >= neighborhood_scores] += 1\<close> and
      \<^verbatim>\<open>neighborhood_decline[p_neighborhood_scores <= neighborhood_scores] += 1\<close>, with the
      comparisons of numpy (both are false when a side is not-a-number); a comparison or a
      mask of another shape raises\<close>
  "tally p_neighborhood_scores neighborhood_scores counts =
     (if \<not> same_shape p_neighborhood_scores neighborhood_scores then Inl ValueError
      else if \<not> same_shape neighborhood_scores (fst counts) then Inl IndexError
      else if \<not> same_shape neighborhood_scores (snd counts) then Inl IndexError
      else Inr (mask_incr np_ge p_neighborhood_scores neighborhood_scores (fst counts),
                mask_incr np_le p_neighborhood_scores neighborhood_scores (snd counts)))"

definition trial ::
  "(nat \<Rightarrow> nat list) \<Rightarrow> graph \<Rightarrow> real frame \<Rightarrow> neighborhoods \<Rightarrow> string \<Rightarrow> string \<Rightarrow> npfloat list list \<Rightarrow>
   nat list list \<times> nat list list \<Rightarrow> py_error + nat list list \<times> nat list list" where
  \<comment> \<open>the body of the loop\<close>
  "trial draw g data nbh shuffle_by agg_mode neighborhood_scores counts =
     (case permutation draw data g shuffle_by of
        Inl e \<Rightarrow> Inl e
      | Inr p_data \<Rightarrow>
          (case neighborhood_score g p_data nbh agg_mode of
             Inl e \<Rightarrow> Inl e
           | Inr p_neighborhood_scores \<Rightarrow> tally p_neighborhood_scores neighborhood_scores counts))"

fun permutation_loop ::
  "(nat \<Rightarrow> nat \<Rightarrow> nat list) \<Rightarrow> graph \<Rightarrow> real frame \<Rightarrow> neighborhoods \<Rightarrow> string \<Rightarrow> string \<Rightarrow>
   npfloat list list \<Rightarrow> nat list \<Rightarrow> nat list list \<times> nat list list \<Rightarrow>
   py_error + nat list list \<times> nat list list" where
  \<comment> \<open>\<^verbatim>\<open>for _ in iter_obj\<close>; trial \<open>t\<close> uses the draws \<open>rng t\<close>\<close>
  "permutation_loop rng g data nbh shuffle_by agg_mode scores [] counts = Inr counts"
| "permutation_loop rng g data nbh shuffle_by agg_mode scores (t # ts) counts =
     (case trial (rng t) g data nbh shuffle_by agg_mode scores counts of
        Inl e \<Rightarrow> Inl e
      | Inr counts' \<Rightarrow> permutation_loop rng g data nbh shuffle_by agg_mode scores ts counts')"

definition DataFrame :: "nat \<Rightarrow> nat \<Rightarrow> 'a list list \<Rightarrow> label list \<Rightarrow> label list \<Rightarrow> py_error + 'a frame" where
  \<comment> \<open>\<^verbatim>\<open>pd.DataFrame(array, index=..., columns=...)\<close> for an array of shape \<open>(rows, cols)\<close>\<close>
  "DataFrame rows cols vals idx cls =
     (if rows = length idx \<and> cols = length cls then Inr \<lparr>index = idx, columns = cls, colvals = vals\<rparr>
      else Inl ValueError)"

datatype safe_scores = Both "npfloat frame" "npfloat frame" | Single "npfloat frame"

definition score_frames ::
  "graph \<Rightarrow> real frame \<Rightarrow> real frame \<Rightarrow> nat \<Rightarrow> string \<Rightarrow> nat list list \<times> nat list list \<Rightarrow>
   py_error + safe_scores" where
  \<comment> \<open>after the loop: the two count matrices (of the shape of \<open>node_data\<close>) become frames
      labelled by the nodes and by the columns of \<open>data\<close>, \<^verbatim>\<open>convertor\<close> scores both, and the
      mode selects what is returned\<close>
  "score_frames g data node_data n_iter mode counts =
     (case DataFrame (nrows node_data) (ncols node_data) (fst counts) (nodes g) (columns data) of
        Inl e \<Rightarrow> Inl e
      | Inr neighborhood_enrichments \<Rightarrow>
      (case DataFrame (nrows node_data) (ncols node_data) (snd counts) (nodes g) (columns data) of
        Inl e \<Rightarrow> Inl e
      | Inr neighborhood_decline \<Rightarrow>
          let safe_scores_enrich = convertor neighborhood_enrichments n_iter;
              safe_scores_decline = convertor neighborhood_decline n_iter
          in if mode = ''both'' then Inr (Both safe_scores_enrich safe_scores_decline)
             else if mode = ''enrich'' then Inr (Single safe_scores_enrich)
             else Inr (Single safe_scores_decline)))"

definition SAFE ::
  "(nat \<Rightarrow> nat \<Rightarrow> nat list) \<Rightarrow> graph \<Rightarrow> real frame \<Rightarrow> nat \<Rightarrow> real \<Rightarrow> neighborhoods option \<Rightarrow> string \<Rightarrow>
   string \<Rightarrow> string \<Rightarrow> py_error + safe_scores" where
  "SAFE rng g data n_iter nr_threshold neighborhoods shuffle_by mode agg_mode =
     (if mode \<notin> set [''enrich'', ''decline'', ''both''] then Inl SyntaxError
      else case node_data_of g data shuffle_by of
        Inl e \<Rightarrow> Inl e
      | Inr node_data \<Rightarrow>
      (case (case neighborhoods of None \<Rightarrow> get_neighborhoods g nr_threshold | Some nb \<Rightarrow> Inr nb) of
        Inl e \<Rightarrow> Inl e
      | Inr nbh \<Rightarrow>
      (case neighborhood_score g (Some (Frame node_data)) nbh agg_mode of
        Inl e \<Rightarrow> Inl e
      | Inr neighborhood_scores \<Rightarrow>
      (case permutation_loop rng g data nbh shuffle_by agg_mode neighborhood_scores [0..<n_iter]
              (zeros (nrows node_data) (ncols node_data), zeros (nrows node_data) (ncols node_data)) of
        Inl e \<Rightarrow> Inl e
      | Inr counts \<Rightarrow> score_frames g data node_data n_iter mode counts))))"

subsection \<open>\<^verbatim>\<open>SAFE_batch\<close>\<close>

text \<open>
  \<^verbatim>\<open>verify_metadata\<close> of \<^verbatim>\<open>tmap.tda.utils\<close> is not among the sources: it is the argument
  \<open>verify_metadata\<close> of the model, given the graph, the metadata and the axis.
\<close>

definition SAFE_batch ::
  "(graph \<Rightarrow> real frame \<Rightarrow> string \<Rightarrow> py_error + real frame) \<Rightarrow> (nat \<Rightarrow> nat \<Rightarrow> nat list) \<Rightarrow> graph \<Rightarrow>
   real frame \<Rightarrow> nat \<Rightarrow> real \<Rightarrow> neighborhoods option \<Rightarrow> string \<Rightarrow> string \<Rightarrow> string \<Rightarrow>
   py_error + graph \<times> safe_scores" where
  "SAFE_batch verify_metadata rng g metadata n_iter nr_threshold neighborhoods shuffle_by mode agg_mode =
     (case (case neighborhoods of None \<Rightarrow> get_neighborhoods g nr_threshold | Some nb \<Rightarrow> Inr nb) of
        Inl e \<Rightarrow> Inl e
      | Inr nbh \<Rightarrow>
      (case (if shuffle_by = ''node'' then verify_metadata g metadata ''node''
             else verify_metadata g metadata ''sample'') of
        Inl e \<Rightarrow> Inl e
      | Inr meta_data \<Rightarrow>
      (case SAFE rng g meta_data n_iter nr_threshold (Some nbh) shuffle_by mode agg_mode of
        Inl e \<Rightarrow> Inl e
      | Inr all_safe_scores \<Rightarrow>
          let params = (\<lambda>d m. \<lparr>par_shuffle_by = shuffle_by, par_agg_mode = agg_mode,
                                 par_nr_threshold = nr_threshold, par_n_iter = n_iter,
                                 par_data = d, par_mode = m\<rparr>)
          in (case all_safe_scores of
                Both e d \<Rightarrow>
                  Inr (add_safe (add_safe g (params e ''enrich'')) (params d ''decline''), all_safe_scores)
              | Single s \<Rightarrow> Inr (add_safe g (params s mode), all_safe_scores)))))"

text \<open>
  Modelled from the spec: \<^verbatim>\<open>verify_metadata\<close> is missing; section 4.1 of the spec says that it
  fails with \<^verbatim>\<open>ShapeMismatch\<close> when the row count of the metadata is not the node count
  (axis \<^verbatim>\<open>node\<close>) or the sample count (axis \<^verbatim>\<open>sample\<close>) of the graph. It is used as an
  instance of the argument of \<open>SAFE_batch\<close> in the examples.
\<close>

definition spec_verify_metadata :: "graph \<Rightarrow> real frame \<Rightarrow> string \<Rightarrow> py_error + real frame" where
  "spec_verify_metadata g metadata by =
     (if by = ''node'' then (if nrows metadata = length (nodes g) then Inr metadata else Inl ShapeMismatch)
      else (if nrows metadata = rawX_rows g then Inr metadata else Inl ShapeMismatch))"

subsection \<open>\<^verbatim>\<open>get_significant_nodes\<close>\<close>

definition transpose_frame :: "'v frame \<Rightarrow> 'v frame" where
  \<comment> \<open>\<^verbatim>\<open>df.T\<close>\<close>
  "transpose_frame fr =
     \<lparr>index = columns fr, columns = index fr,
      colvals = map (\<lambda>i. map (\<lambda>col. col ! i) (colvals fr)) [0..<length (index fr)]\<rparr>"

definition to_dict :: "'v frame \<Rightarrow> (label \<times> (label \<times> 'v) list) list" where
  \<comment> \<open>\<^verbatim>\<open>df.to_dict()\<close>: for each column label, the dictionary from row label to value\<close>
  "to_dict fr = zip (columns fr) (map (zip (index fr)) (colvals fr))"

definition where_ge :: "npfloat frame \<Rightarrow> npfloat \<Rightarrow> npfloat frame" where
  \<comment> \<open>\<^verbatim>\<open>df.where(df >= t)\<close>: a cell is kept where the comparison holds, not-a-number elsewhere\<close>
  "where_ge fr t = frame_apply (map (\<lambda>v. if np_ge v t then v else NaN)) fr"

fun traverse :: "('a \<Rightarrow> py_error + 'b) \<Rightarrow> 'a list \<Rightarrow> py_error + 'b list" where
  \<comment> \<open>a comprehension whose body may raise: the first error ends it\<close>
  "traverse f [] = Inr []"
| "traverse f (x # xs) =
     (case f x of
        Inl e \<Rightarrow> Inl e
      | Inr y \<Rightarrow> (case traverse f xs of Inl e \<Rightarrow> Inl e | Inr ys \<Rightarrow> Inr (y # ys)))"

definition getitem :: "('k \<times> 'v) list \<Rightarrow> 'k \<Rightarrow> py_error + 'v" where
  \<comment> \<open>\<^verbatim>\<open>d[k]\<close>\<close>
  "getitem d k = (case map_of d k of None \<Rightarrow> Inl KeyError | Some v \<Rightarrow> Inr v)"

datatype sig_result =
    Centroids_and_nodes "(label \<times> label list) list" "(label \<times> label set) list"
  | Nodes_only "(label \<times> label set) list"

definition resolve_threshold :: "graph \<Rightarrow> npfloat option \<Rightarrow> real \<Rightarrow> nat option \<Rightarrow> py_error + npfloat" where
  \<comment> \<open>the \<^verbatim>\<open>if SAFE_pvalue is None\<close> block\<close>
  "resolve_threshold g SAFE_pvalue pvalue n_iter =
     (case SAFE_pvalue of
        Some t \<Rightarrow> Inr t
      | None \<Rightarrow>
          (case (case n_iter of
                   Some n \<Rightarrow> Inr n
                 | None \<Rightarrow> if SAFE_log g = [] then Inl IndexError else Inr (par_n_iter (last (SAFE_log g)))) of
             Inl e \<Rightarrow> Inl e
           | Inr n \<Rightarrow> Inr (np_div (np_log10 (Fin pvalue)) (np_log10 (Fin (min_p_value n))))))"

definition get_significant_nodes ::
  "graph \<Rightarrow> npfloat frame \<Rightarrow> npfloat option \<Rightarrow> real \<Rightarrow> real \<Rightarrow> nat option \<Rightarrow> bool \<Rightarrow> py_error + sig_result" where
  \<comment> \<open>\<^verbatim>\<open>unify_data\<close> (not among the sources) turns its argument into a frame; the argument is
      a frame here. In \<^verbatim>\<open>[v for v in vlist if not pd.isnull(v)]\<close>, \<^verbatim>\<open>vlist\<close> is a dictionary,
      so \<^verbatim>\<open>v\<close> runs over its keys, the row labels. \<^verbatim>\<open>list(set(...))\<close> is a set here.\<close>
  "get_significant_nodes g safe_scores SAFE_pvalue nr_threshold pvalue n_iter centroids =
     (case get_neighborhoods g nr_threshold of
        Inl e \<Rightarrow> Inl e
      | Inr nbh \<Rightarrow>
          let scores = (if nrows safe_scores \<noteq> length (nodes g) then transpose_frame safe_scores
                        else safe_scores)
          in if nrows scores \<noteq> length (nodes g) then Inl AssertionError
             else (case resolve_threshold g SAFE_pvalue pvalue n_iter of
                Inl e \<Rightarrow> Inl e
              | Inr threshold \<Rightarrow>
                  let filter_dict = to_dict (where_ge scores threshold);
                      significant_centroides =
                        map (\<lambda>(k, vlist). (k, filter (\<lambda>v. \<not> pd_isnull v) (map fst vlist))) filter_dict
                  in (case traverse (\<lambda>(f, ns). case traverse (getitem nbh) ns of
                                                     Inl e \<Rightarrow> Inl e
                                                   | Inr xss \<Rightarrow> Inr (f, set (concat xss)))
                                     significant_centroides of
                        Inl e \<Rightarrow> Inl e
                      | Inr significant_nodes \<Rightarrow>
                          if centroids then Inr (Centroids_and_nodes significant_centroides significant_nodes)
                          else Inr (Nodes_only significant_nodes))))"

subsection \<open>\<^verbatim>\<open>get_SAFE_summary\<close>\<close>

definition pd_sum :: "npfloat list \<Rightarrow> npfloat" where
  \<comment> \<open>the sum of pandas, which skips not-a-number; \<^verbatim>\<open>np.sum\<close> of a Series is this sum too\<close>
  "pd_sum xs = foldl np_add (Fin 0) (filter (\<lambda>x. x \<noteq> NaN) xs)"

definition safe_div :: "npfloat \<Rightarrow> npfloat \<Rightarrow> npfloat" where
  \<comment> \<open>\<^verbatim>\<open>_safe_div\<close>; \<^verbatim>\<open>x * 1.0\<close> is \<^verbatim>\<open>x\<close>\<close>
  "safe_div x y = (if y = Fin 0 then NaN else np_div x y)"

definition loc_row :: "'v frame \<Rightarrow> label \<Rightarrow> label list \<Rightarrow> py_error + 'v list" where
  \<comment> \<open>\<^verbatim>\<open>df.loc[r, cs]\<close>: the cells of row \<open>r\<close> in the columns \<open>cs\<close>\<close>
  "loc_row fr r cs =
     traverse (\<lambda>c. case getitem (zip (columns fr) (colvals fr)) c of
                      Inl e \<Rightarrow> Inl e
                    | Inr col \<Rightarrow> getitem (zip (index fr) col) r) cs"

definition loc_col :: "'v frame \<Rightarrow> label list \<Rightarrow> label \<Rightarrow> py_error + 'v list" where
  \<comment> \<open>\<^verbatim>\<open>df.loc[rs, c]\<close>: the cells of column \<open>c\<close> in the rows \<open>rs\<close>\<close>
  "loc_col fr rs c =
     (case getitem (zip (columns fr) (colvals fr)) c of
        Inl e \<Rightarrow> Inl e
      | Inr col \<Rightarrow> traverse (getitem (zip (index fr) col)) rs)"

record summary =
  SAFE_total_score :: "(label \<times> npfloat) list"
  number_of_enriched_nodes :: "(label \<times> nat) list"
  number_of_enriched_samples :: "(label \<times> nat) list"
  SAFE_enriched_score :: "(label \<times> npfloat) list"
  enriched_abundance_ratio :: "(label \<times> npfloat) list"
  enriched_SAFE_score_ratio :: "(label \<times> npfloat) list"

datatype summary_result =
    Details "(label \<times> label set) list" "(label \<times> npfloat) list"
  | Table summary

definition get_SAFE_summary ::
  "graph \<Rightarrow> real frame \<Rightarrow> npfloat frame \<Rightarrow> nat option \<Rightarrow> real \<Rightarrow> real \<Rightarrow> bool \<Rightarrow> py_error + summary_result" where
  \<comment> \<open>the table is kept as the six dictionaries \<^verbatim>\<open>pd.DataFrame\<close> is built from; with
      \<^verbatim>\<open>centroids=True\<close> the call of \<^verbatim>\<open>get_significant_nodes\<close> returns both dictionaries, so the
      branch \<open>Nodes_only\<close> (an unpacking error in Python) is never taken\<close>
  "get_SAFE_summary g metadata safe_scores n_iter p_value nr_threshold output_details =
     (let scores = (if nrows safe_scores \<noteq> ncols metadata then transpose_frame safe_scores
                    else safe_scores)
      in if nrows scores \<noteq> ncols metadata then Inl AssertionError
      else
      let feature_names = index scores;
          safe_total_score = zip (index scores) (map pd_sum (colvals (transpose_frame scores)))
      in case get_significant_nodes g scores None nr_threshold p_value n_iter True of
        Inl e \<Rightarrow> Inl e
      | Inr (Nodes_only ns) \<Rightarrow> Inl ValueError
      | Inr (Centroids_and_nodes safe_significant_centroides safe_significant_nodes) \<Rightarrow>
      let safe_enriched_nodes_n = map (\<lambda>(feature, node_ids). (feature, card node_ids)) safe_significant_nodes
      in case traverse (\<lambda>(f, ns). case node2sample g ns of Inl e \<Rightarrow> Inl e | Inr sm \<Rightarrow> Inr (f, sm))
                       safe_significant_nodes of
        Inl e \<Rightarrow> Inl e
      | Inr safe_significant_samples \<Rightarrow>
      let safe_significant_samples_n =
            map (\<lambda>(feature, sample_names). (feature, length sample_names)) safe_significant_samples
      in case traverse (\<lambda>feature. case getitem safe_significant_centroides feature of
                                      Inl e \<Rightarrow> Inl e
                                    | Inr cs \<Rightarrow> (case loc_row scores feature cs of
                                                  Inl e \<Rightarrow> Inl e
                                                | Inr vs \<Rightarrow> Inr (feature, pd_sum vs)))
                       feature_names of
        Inl e \<Rightarrow> Inl e
      | Inr safe_significant_score \<Rightarrow>
      if output_details then Inr (Details safe_significant_nodes safe_significant_score)
      else
      let feature_total = zip (columns metadata) (map sum_list (colvals metadata))
      in case traverse (\<lambda>feature. case getitem safe_significant_samples feature of
                                      Inl e \<Rightarrow> Inl e
                                    | Inr sm \<Rightarrow> (case loc_col metadata sm feature of
                                        Inl e \<Rightarrow> Inl e
                                      | Inr vs \<Rightarrow> (case getitem feature_total feature of
                                          Inl e \<Rightarrow> Inl e
                                        | Inr tot \<Rightarrow> Inr (feature, np_div (Fin (sum_list vs)) (Fin tot)))))
                       feature_names of
        Inl e \<Rightarrow> Inl e
      | Inr abundance_ratio \<Rightarrow>
      (case traverse (\<lambda>feature. case getitem safe_significant_score feature of
                                    Inl e \<Rightarrow> Inl e
                                  | Inr sc \<Rightarrow> (case getitem safe_total_score feature of
                                      Inl e \<Rightarrow> Inl e
                                    | Inr tot \<Rightarrow> Inr (feature, safe_div sc tot)))
                     feature_names of
        Inl e \<Rightarrow> Inl e
      | Inr safe_ratio \<Rightarrow>
          Inr (Table \<lparr>SAFE_total_score = safe_total_score,
                      number_of_enriched_nodes = safe_enriched_nodes_n,
                      number_of_enriched_samples = safe_significant_samples_n,
                      SAFE_enriched_score = safe_significant_score,
                      enriched_abundance_ratio = abundance_ratio,
                      enriched_SAFE_score_ratio = safe_ratio\<rparr>)))"

subsection \<open>The score conversion in the words of the specification\<close>

text \<open>
  Section 4.3 of the spec, on real numbers: \<open>min_p = 1/(n_iter+1)\<close>; the raw p-value is
  \<open>counts / n_iter\<close> clipped below at \<open>min_p\<close>; the Benjamini-Hochberg correction is applied to
  each column; the score is \<open>log10(corrected_p) / log10(min_p)\<close>.
\<close>

definition spec_min_p :: "nat \<Rightarrow> real" where
  "spec_min_p n_iter = 1 / (real n_iter + 1)"

definition spec_raw_p :: "nat \<Rightarrow> nat \<Rightarrow> real" where
  "spec_raw_p n_iter c = max (real c / real n_iter) (spec_min_p n_iter)"

definition bh_adjust :: "real list \<Rightarrow> real list" where
  "bh_adjust ps =
     map (\<lambda>p. min 1 (min_list (map (\<lambda>q. q * real (length ps) / real (length (filter (\<lambda>r. r \<le> q) ps)))
                                   (filter (\<lambda>q. p \<le> q) ps)))) ps"

definition spec_convertor :: "nat list list \<Rightarrow> nat \<Rightarrow> real list list" where
  "spec_convertor counts n_iter =
     map (\<lambda>col. map (\<lambda>q. log 10 q / log 10 (spec_min_p n_iter))
                    (bh_adjust (map (spec_raw_p n_iter) col))) counts"

subsection \<open>A small graph\<close>

text \<open>
  Two nodes, each its own neighbourhood; node \<open>0\<close> holds sample \<open>a\<close>, node \<open>1\<close> holds no
  sample, and sample \<open>b\<close> is in no node. The neighbourhood score of a node is the value of the
  node itself, the sample-to-node transform keeps the first row for node \<open>0\<close> and gives \<open>0\<close>
  to node \<open>1\<close>; both accept tables only.
\<close>

definition ex_graph :: graph where
  "ex_graph =
     \<lparr>nodes = [IntL 0, IntL 1],
      get_neighborhoods = (\<lambda>t. Inr [(IntL 0, [IntL 0]), (IntL 1, [IntL 1])]),
      neighborhood_score = (\<lambda>d nb m. case d of
                                        Some (Frame fr) \<Rightarrow> Inr (map (map Fin) (colvals fr))
                                      | _ \<Rightarrow> Inl (ExternalError 0)),
      transform_sn = (\<lambda>d t. case d of
                                 Frame fr \<Rightarrow> Inr \<lparr>index = [IntL 0, IntL 1], columns = columns fr,
                                                   colvals = map (\<lambda>col. [hd col, 0]) (colvals fr)\<rparr>
                               | _ \<Rightarrow> Inl (ExternalError 1)),
      node2sample = (\<lambda>ns. Inr (if IntL 0 \<in> ns then [StrL ''a''] else [])),
      rawX_rows = 2,
      SAFE_log = []\<rparr>"

definition ex_data :: "real frame" where
  \<comment> \<open>one feature \<open>f\<close> with the values \<open>1\<close> and \<open>-1\<close> on two rows\<close>
  "ex_data = \<lparr>index = [StrL ''a'', StrL ''b''], columns = [StrL ''f''], colvals = [[1, -1]]\<rparr>"

definition ex_rng :: "nat \<Rightarrow> nat \<Rightarrow> nat list" where
  \<comment> \<open>every draw swaps the two rows\<close>
  "ex_rng t j = [1, 0]"

definition ex_counts :: "nat frame" where
  "ex_counts = \<lparr>index = [IntL 0, IntL 1], columns = [StrL ''f''], colvals = [[0, 2]]\<rparr>"

definition ex_heap :: heap where
  \<comment> \<open>the frame \<open>ex_data\<close> in cell \<open>0\<close>\<close>
  "ex_heap = \<lparr>cells = (\<lambda>a. if a = 0 then Some (Frame ex_data) else None), next_addr = 1\<rparr>"

definition ex_scores :: "npfloat frame" where
  \<comment> \<open>nodes by features: node \<open>0\<close> has score \<open>1\<close>, node \<open>1\<close> has score \<open>0\<close>\<close>
  "ex_scores = \<lparr>index = [IntL 0, IntL 1], columns = [StrL ''f''], colvals = [[Fin 1, Fin 0]]\<rparr>"

definition ex_short :: "real frame" where
  \<comment> \<open>metadata with a single row, which fits neither the nodes nor the samples of \<open>ex_graph\<close>\<close>
  "ex_short = \<lparr>index = [StrL ''a''], columns = [StrL ''f''], colvals = [[1]]\<rparr>"

definition ex_nan_graph :: graph where
  \<comment> \<open>as \<open>ex_graph\<close>, but the score of node \<open>0\<close> is always not-a-number\<close>
  "ex_nan_graph = ex_graph\<lparr>neighborhood_score := (\<lambda>d nb m. Inr [[NaN, Fin 1]])\<rparr>"

definition ex_empty_graph :: graph where
  \<comment> \<open>as \<open>ex_graph\<close>, but without nodes\<close>
  "ex_empty_graph = ex_graph\<lparr>nodes := []\<rparr>"

definition ex_no_row :: "real frame" where
  \<comment> \<open>a table with the column \<open>f\<close> and no row\<close>
  "ex_no_row = \<lparr>index = [], columns = [StrL ''f''], colvals = [[]]\<rparr>"

definition ex_no_column :: "real frame" where
  \<comment> \<open>a table with two rows and no column\<close>
  "ex_no_column = \<lparr>index = [IntL 0, IntL 1], columns = [], colvals = []\<rparr>"

subsection \<open>The invariant of the permutation loop\<close>

text \<open>
  After \<open>k\<close> trials the two count matrices have one shape and no cell exceeds \<open>k\<close>.
\<close>

definition tally_inv :: "nat \<Rightarrow> nat list list \<times> nat list list \<Rightarrow> bool" where
  "tally_inv k counts =
     (same_shape (fst counts) (snd counts) \<and>
      (\<forall>j<length (fst counts). \<forall>i<length (fst counts ! j).
         fst counts ! j ! i \<le> k \<and> snd counts ! j ! i \<le> k))"

subsection \<open>The sample axis in the words of the specification\<close>

text \<open>
  Sections 4.1, 4.2 and 4.4 of the spec for the axis \<^verbatim>\<open>sample\<close>: the metadata is transformed to
  node space before it is scored; each of the \<open>n_iter\<close> trials permutes the raw sample-space
  metadata, transforms the permuted table to node space with the same transform, aggregates
  it under the same neighbourhoods and aggregation mode, and updates the two counts against
  the observed scores; the counts are converted at the end.
\<close>

definition spec_sample_trial ::
  "(nat \<Rightarrow> nat list) \<Rightarrow> graph \<Rightarrow> real frame \<Rightarrow> neighborhoods \<Rightarrow> string \<Rightarrow> npfloat list list \<Rightarrow>
   nat list list \<times> nat list list \<Rightarrow> py_error + nat list list \<times> nat list list" where
  "spec_sample_trial draw g raw nbh agg_mode observed counts =
     (if nrows raw \<noteq> rawX_rows g then Inl AssertionError
      else case apply_permutation draw raw of
        Inl e \<Rightarrow> Inl e
      | Inr permuted \<Rightarrow>
      (case transform_sn g permuted ''s2n'' of
        Inl e \<Rightarrow> Inl e
      | Inr node_space \<Rightarrow>
      (case neighborhood_score g (Some (Frame node_space)) nbh agg_mode of
        Inl e \<Rightarrow> Inl e
      | Inr permuted_scores \<Rightarrow> tally permuted_scores observed counts)))"

fun spec_sample_trials ::
  "(nat \<Rightarrow> nat \<Rightarrow> nat list) \<Rightarrow> graph \<Rightarrow> real frame \<Rightarrow> neighborhoods \<Rightarrow> string \<Rightarrow> npfloat list list \<Rightarrow>
   nat list \<Rightarrow> nat list list \<times> nat list list \<Rightarrow> py_error + nat list list \<times> nat list list" where
  "spec_sample_trials rng g raw nbh agg_mode observed [] counts = Inr counts"
| "spec_sample_trials rng g raw nbh agg_mode observed (t # ts) counts =
     (case spec_sample_trial (rng t) g raw nbh agg_mode observed counts of
        Inl e \<Rightarrow> Inl e
      | Inr counts' \<Rightarrow> spec_sample_trials rng g raw nbh agg_mode observed ts counts')"

definition spec_sample_SAFE ::
  "(nat \<Rightarrow> nat \<Rightarrow> nat list) \<Rightarrow> graph \<Rightarrow> real frame \<Rightarrow> nat \<Rightarrow> real \<Rightarrow> neighborhoods option \<Rightarrow> string \<Rightarrow>
   string \<Rightarrow> py_error + safe_scores" where
  "spec_sample_SAFE rng g raw n_iter nr_threshold neighborhoods mode agg_mode =
     (if mode \<noteq> ''enrich'' \<and> mode \<noteq> ''decline'' \<and> mode \<noteq> ''both'' then Inl SyntaxError
      else case transform_sn g (Frame raw) ''s2n'' of
        Inl e \<Rightarrow> Inl e
      | Inr node_space \<Rightarrow>
      (case (case neighborhoods of None \<Rightarrow> get_neighborhoods g nr_threshold | Some nb \<Rightarrow> Inr nb) of
        Inl e \<Rightarrow> Inl e
      | Inr nbh \<Rightarrow>
      (case neighborhood_score g (Some (Frame node_space)) nbh agg_mode of
        Inl e \<Rightarrow> Inl e
      | Inr observed \<Rightarrow>
      (case spec_sample_trials rng g raw nbh agg_mode observed [0..<n_iter]
              (zeros (nrows node_space) (ncols node_space), zeros (nrows node_space) (ncols node_space)) of
        Inl e \<Rightarrow> Inl e
      | Inr counts \<Rightarrow> score_frames g raw node_space n_iter mode counts))))"

subsection \<open>A batch run on an unknown shuffle axis\<close>

text \<open>
  What a call of \<^verbatim>\<open>SAFE_batch\<close> does when the axis is neither \<^verbatim>\<open>node\<close> nor \<^verbatim>\<open>sample\<close>, written
  out step by step: the neighbourhoods are looked up, the metadata is verified as
  sample-space metadata, the mode is checked, the verified metadata is scored as if it were
  node data, every trial hands \<open>None\<close> to the neighbourhood score of the graph (no permutation
  is drawn), and the scores are converted and recorded.
\<close>

fun none_trials ::
  "graph \<Rightarrow> neighborhoods \<Rightarrow> string \<Rightarrow> npfloat list list \<Rightarrow> nat list \<Rightarrow> nat list list \<times> nat list list \<Rightarrow>
   py_error + nat list list \<times> nat list list" where
  "none_trials g nbh agg_mode observed [] counts = Inr counts"
| "none_trials g nbh agg_mode observed (t # ts) counts =
     (case neighborhood_score g None nbh agg_mode of
        Inl e \<Rightarrow> Inl e
      | Inr none_scores \<Rightarrow>
          (case tally none_scores observed counts of
             Inl e \<Rightarrow> Inl e
           | Inr counts' \<Rightarrow> none_trials g nbh agg_mode observed ts counts'))"

definition unknown_axis_batch ::
  "(graph \<Rightarrow> real frame \<Rightarrow> string \<Rightarrow> py_error + real frame) \<Rightarrow> graph \<Rightarrow> real frame \<Rightarrow> nat \<Rightarrow> real \<Rightarrow>
   neighborhoods option \<Rightarrow> string \<Rightarrow> string \<Rightarrow> string \<Rightarrow> py_error + graph \<times> safe_scores" where
  "unknown_axis_batch verify_metadata g metadata n_iter nr_threshold neighborhoods shuffle_by mode agg_mode =
     (case (case neighborhoods of None \<Rightarrow> get_neighborhoods g nr_threshold | Some nb \<Rightarrow> Inr nb) of
        Inl e \<Rightarrow> Inl e
      | Inr nbh \<Rightarrow>
      (case verify_metadata g metadata ''sample'' of
        Inl e \<Rightarrow> Inl e
      | Inr meta_data \<Rightarrow>
      if mode \<noteq> ''enrich'' \<and> mode \<noteq> ''decline'' \<and> mode \<noteq> ''both'' then Inl SyntaxError
      else
      (case neighborhood_score g (Some (Frame meta_data)) nbh agg_mode of
        Inl e \<Rightarrow> Inl e
      | Inr observed \<Rightarrow>
      (case none_trials g nbh agg_mode observed [0..<n_iter]
              (zeros (nrows meta_data) (ncols meta_data), zeros (nrows meta_data) (ncols meta_data)) of
        Inl e \<Rightarrow> Inl e
      | Inr counts \<Rightarrow>
      (case score_frames g meta_data meta_data n_iter mode counts of
        Inl e \<Rightarrow> Inl e
      | Inr all_safe_scores \<Rightarrow>
          let params = (\<lambda>d m. \<lparr>par_shuffle_by = shuffle_by, par_agg_mode = agg_mode,
                                 par_nr_threshold = nr_threshold, par_n_iter = n_iter,
                                 par_data = d, par_mode = m\<rparr>)
          in (case all_safe_scores of
                Both e d \<Rightarrow>
                  Inr (add_safe (add_safe g (params e ''enrich'')) (params d ''decline''), all_safe_scores)
              | Single s \<Rightarrow> Inr (add_safe g (params s mode), all_safe_scores)))))))"

section \<open>Properties of the score conversion\<close>

subsection \<open>The correction on finite values\<close>

lemma np_min_list_Fin: "xs \<noteq> [] \<Longrightarrow> np_min_list (map Fin xs) = Fin (min_list xs)"
proof (induction xs rule: induct_list012)
  case 1 then show ?case by simp
next
  case (2 x) then show ?case by simp
next
  case (3 x y zs)
  then show ?case by (simp add: np_minimum_def min_def)
qed

lemma bh_rank_Fin: "bh_rank (map Fin ps) (Fin q) = length (filter (\<lambda>r. r \<le> q) ps)"
  by (simp add: bh_rank_def filter_map comp_def)

lemma filter_ge_Fin: "filter (\<lambda>q. np_le (Fin p) q) (map Fin ps) = map Fin (filter (\<lambda>q. p \<le> q) ps)"
  by (simp add: filter_map comp_def)

lemma rank_pos: "q \<in> set ps \<Longrightarrow> 0 < length (filter (\<lambda>r. r \<le> (q::real)) ps)"
  by (simp add: length_greater_0_conv filter_empty_conv) (metis order_refl)

lemma bh_raw_Fin:
  assumes "q \<in> set ps"
  shows "bh_raw (map Fin ps) (Fin q) = Fin (q * real (length ps) / real (length (filter (\<lambda>r. r \<le> q) ps)))"
proof -
  have "0 < length (filter (\<lambda>r. r \<le> q) ps)" using assms by (rule rank_pos)
  moreover have "ps \<noteq> []" using assms by auto
  ultimately show ?thesis by (simp add: bh_raw_def bh_rank_Fin)
qed

lemma fdr_bh_Fin: "fdr_bh (map Fin ps) = map Fin (bh_adjust ps)"
proof -
  have "(let m = np_min_list (map (bh_raw (map Fin ps)) (filter (\<lambda>q. np_le (Fin p) q) (map Fin ps)))
         in if np_gt m (Fin 1) then Fin 1 else m)
        = Fin (min 1 (min_list (map (\<lambda>q. q * real (length ps) / real (length (filter (\<lambda>r. r \<le> q) ps)))
                                   (filter (\<lambda>q. p \<le> q) ps))))"
    if p: "p \<in> set ps" for p
  proof -
    let ?g = "\<lambda>q. q * real (length ps) / real (length (filter (\<lambda>r. r \<le> q) ps))"
    let ?qs = "filter (\<lambda>q. p \<le> q) ps"
    have ne: "?qs \<noteq> []" using p by (auto simp: filter_empty_conv)
    have "map (bh_raw (map Fin ps)) (filter (\<lambda>q. np_le (Fin p) q) (map Fin ps))
          = map Fin (map ?g ?qs)"
      by (simp add: filter_ge_Fin bh_raw_Fin)
    then have "np_min_list (map (bh_raw (map Fin ps)) (filter (\<lambda>q. np_le (Fin p) q) (map Fin ps)))
          = Fin (min_list (map ?g ?qs))"
      using ne np_min_list_Fin [of "map ?g ?qs"] by simp
    then show ?thesis by (simp add: np_gt_def min_def Let_def)
  qed
  then show ?thesis by (simp add: fdr_bh_def bh_adjust_def)
qed



lemma bh_adjust_length: "length (bh_adjust ps) = length ps"
  by (simp add: bh_adjust_def)

lemma bh_adjust_bounds:
  assumes lo: "0 < lo" and all: "\<forall>q \<in> set ps. lo \<le> q" and i: "i < length ps"
  shows "min 1 lo \<le> bh_adjust ps ! i \<and> bh_adjust ps ! i \<le> 1"
proof -
  let ?g = "\<lambda>q. q * real (length ps) / real (length (filter (\<lambda>r. r \<le> q) ps))"
  let ?p = "ps ! i"
  let ?qs = "filter (\<lambda>q. ?p \<le> q) ps"
  have p: "?p \<in> set ps" using i by simp
  have "?p \<in> set ?qs" using p by simp
  then have qne: "?qs \<noteq> []" by (metis empty_iff empty_set)
  have ne: "set (map ?g ?qs) \<noteq> {}" using p by (auto simp: filter_empty_conv)
  have "map ?g ?qs \<noteq> []" using qne by (simp only: map_is_Nil_conv not_False_eq_True)
  then have ml: "min_list (map ?g ?qs) = Min (set (map ?g ?qs))"
    by (rule min_list_Min)
  have ge: "lo \<le> ?g q" if q: "q \<in> set ps" for q
  proof -
    have r: "0 < length (filter (\<lambda>r. r \<le> q) ps)" using q by (rule rank_pos)
    have "length (filter (\<lambda>r. r \<le> q) ps) \<le> length ps" by simp
    then have "real (length (filter (\<lambda>r. r \<le> q) ps)) \<le> real (length ps)" by simp
    moreover have "0 < q" using lo all q by force
    ultimately have "q * real (length (filter (\<lambda>r. r \<le> q) ps)) \<le> q * real (length ps)"
      by (simp add: mult_left_mono)
    then have "q \<le> ?g q" using r by (simp add: pos_le_divide_eq)
    moreover have "lo \<le> q" using all q by simp
    ultimately show ?thesis by simp
  qed
  have "lo \<le> Min (set (map ?g ?qs))"
    using ne ge by (subst Min_ge_iff) auto
  then have "min 1 lo \<le> min 1 (Min (set (map ?g ?qs)))" by (simp add: min_def)
  moreover have "bh_adjust ps ! i = min 1 (Min (set (map ?g ?qs)))"
    using i ml by (simp add: bh_adjust_def)
  ultimately show ?thesis by simp
qed

lemma min_p_value_pos: "0 < min_p_value n"
  by (simp add: min_p_value_def add_pos_nonneg)

lemma min_p_value_less_1: "1 \<le> n \<Longrightarrow> min_p_value n < 1"
  by (simp add: min_p_value_def)

lemma min_p_value_le_1: "min_p_value n \<le> 1"
  by (simp add: min_p_value_def)

lemma p_value_cell:
  assumes "1 \<le> n_iter"
  shows "(let p = np_div (Fin (real c)) (Fin (real n_iter))
          in if np_ge p (Fin (min_p_value n_iter)) then p else Fin (min_p_value n_iter))
         = Fin (spec_raw_p n_iter c)"
  using assms by (simp add: np_ge_def spec_raw_p_def spec_min_p_def min_p_value_def max_def Let_def)

lemma p_value_df_spec:
  assumes "1 \<le> n_iter"
  shows "colvals (p_value_df cc n_iter) = map (map (\<lambda>c. Fin (spec_raw_p n_iter c))) (colvals cc)"
proof -
  have "(\<lambda>c. let p = np_div (Fin (real c)) (Fin (real n_iter))
          in if np_ge p (Fin (min_p_value n_iter)) then p else Fin (min_p_value n_iter))
        = (\<lambda>c. Fin (spec_raw_p n_iter c))"
    using p_value_cell [OF assms] by blast
  then show ?thesis
    unfolding p_value_df_def frame_apply_def by simp
qed

lemma fdr_bh_Fin_map: "fdr_bh (map (\<lambda>c. Fin (f c)) col) = map Fin (bh_adjust (map f col))"
  using fdr_bh_Fin [of "map f col"] by (simp add: comp_def)

lemma p_values_fdr_bh_spec:
  assumes "1 \<le> n_iter"
  shows "colvals (p_values_fdr_bh cc n_iter)
         = map (\<lambda>col. map Fin (bh_adjust (map (spec_raw_p n_iter) col))) (colvals cc)"
  unfolding p_values_fdr_bh_def frame_apply_def
  by (simp add: p_value_df_spec [OF assms] fdr_bh_Fin_map)

lemma spec_raw_p_ge: "min_p_value n \<le> spec_raw_p n c"
  by (simp add: spec_raw_p_def spec_min_p_def min_p_value_def)

lemma spec_min_p_eq: "spec_min_p n = min_p_value n"
  by (simp add: spec_min_p_def min_p_value_def)

lemma log_min_p_neg: "1 \<le> n \<Longrightarrow> log 10 (min_p_value n) < 0"
  using min_p_value_pos [of n] min_p_value_less_1 [of n] by simp

lemma score_cell:
  assumes "1 \<le> n_iter" and "0 < q"
  shows "np_div (np_log10 (Fin q)) (np_log10 (Fin (min_p_value n_iter)))
         = Fin (log 10 q / log 10 (spec_min_p n_iter))"
proof -
  have "log 10 (min_p_value n_iter) < 0" by (rule log_min_p_neg [OF assms(1)])
  then have ne: "log 10 (min_p_value n_iter) \<noteq> 0" by linarith
  have "np_log10 (Fin q) = Fin (log 10 q)" using assms(2) by simp
  moreover have "np_log10 (Fin (min_p_value n_iter)) = Fin (log 10 (min_p_value n_iter))"
    using min_p_value_pos [of n_iter] by simp
  ultimately show ?thesis using ne by (simp only: np_div.simps spec_min_p_eq if_False)
qed

lemma bh_adjust_pos:
  assumes "1 \<le> n_iter" and "q \<in> set (bh_adjust (map (spec_raw_p n_iter) col))"
  shows "min_p_value n_iter \<le> q \<and> q \<le> 1"
proof -
  let ?ps = "map (spec_raw_p n_iter) col"
  obtain i where i: "i < length ?ps" and q: "q = bh_adjust ?ps ! i"
    using assms(2) by (metis in_set_conv_nth bh_adjust_length)
  have "\<forall>r \<in> set ?ps. min_p_value n_iter \<le> r" by (auto simp: spec_raw_p_ge)
  from bh_adjust_bounds [OF min_p_value_pos this i]
  show ?thesis using q min_p_value_le_1 [of n_iter] by (simp add: min_def)
qed

lemma convertor_spec:
  assumes "1 \<le> n_iter"
  shows "colvals (convertor cc n_iter) = map (map Fin) (spec_convertor (colvals cc) n_iter)"
proof -
  have "map (\<lambda>q. np_div (np_log10 q) (np_log10 (Fin (min_p_value n_iter))))
            (map Fin (bh_adjust (map (spec_raw_p n_iter) col)))
        = map Fin (map (\<lambda>q. log 10 q / log 10 (spec_min_p n_iter)) (bh_adjust (map (spec_raw_p n_iter) col)))"
    for col
  proof -
    have "0 < q" if "q \<in> set (bh_adjust (map (spec_raw_p n_iter) col))" for q
      using bh_adjust_pos [OF assms that] min_p_value_pos [of n_iter] by linarith
    then have "np_div (np_log10 (Fin q)) (np_log10 (Fin (min_p_value n_iter)))
               = Fin (log 10 q / log 10 (spec_min_p n_iter))"
      if "q \<in> set (bh_adjust (map (spec_raw_p n_iter) col))" for q
      using that score_cell [OF assms] by blast
    then show ?thesis by (simp add: comp_def)
  qed
  then show ?thesis
    unfolding convertor_def frame_apply_def spec_convertor_def
    by (simp add: p_values_fdr_bh_spec [OF assms] comp_def)
qed



lemma colvals_frame_apply: "colvals (frame_apply f fr) = map f (colvals fr)"
  by (simp add: frame_apply_def)

lemma log_ratio_range:
  fixes q m :: real
  assumes m: "0 < m" "m < 1" and q: "m \<le> q" "q \<le> 1"
  shows "0 \<le> log 10 q / log 10 m \<and> log 10 q / log 10 m \<le> 1 \<and> (log 10 q / log 10 m = 1 \<longleftrightarrow> q = m)"
proof -
  have qpos: "0 < q" using m q by linarith
  have lm: "log 10 m < 0" using m by simp
  have lq0: "log 10 q \<le> 0" using qpos q by simp
  have lqm: "log 10 m \<le> log 10 q" using m q qpos by simp
  have a: "0 \<le> log 10 q / log 10 m" using lm lq0 by (simp add: divide_nonpos_neg)
  have b: "log 10 q / log 10 m \<le> 1" using lm lqm by (simp add: neg_divide_le_eq)
  have "log 10 q / log 10 m = 1 \<longleftrightarrow> log 10 q = log 10 m" using lm by (auto simp: field_simps)
  also have "\<dots> \<longleftrightarrow> q = m"
  proof
    assume e: "log 10 q = log 10 m"
    have "inj_on (log (10::real)) {0 <..}" by (rule log_inj) simp
    then show "q = m" using e qpos m(1) by (auto dest: inj_onD)
  qed simp
  finally show ?thesis using a b by simp
qed

lemma convertor_score_range_aux:
  assumes n: "1 \<le> n_iter" and j: "j < length (colvals cc)" and i: "i < length (colvals cc ! j)"
  shows "\<exists>s q. colvals (convertor cc n_iter) ! j ! i = Fin s
             \<and> colvals (p_values_fdr_bh cc n_iter) ! j ! i = Fin q
             \<and> 0 \<le> s \<and> s \<le> 1 \<and> (s = 1 \<longleftrightarrow> q = min_p_value n_iter)"
proof -
  let ?col = "colvals cc ! j"
  let ?adj = "bh_adjust (map (spec_raw_p n_iter) ?col)"
  let ?q = "?adj ! i"
  let ?s = "log 10 ?q / log 10 (min_p_value n_iter)"
  have len: "i < length ?adj" using i by (simp add: bh_adjust_length)
  have P: "colvals (p_values_fdr_bh cc n_iter) ! j ! i = Fin ?q"
    using j len by (simp add: p_values_fdr_bh_spec [OF n])
  have C: "colvals (convertor cc n_iter) ! j ! i = Fin ?s"
    using j len by (simp add: convertor_spec [OF n] spec_convertor_def spec_min_p_eq)
  have "?q \<in> set ?adj" using len by simp
  from bh_adjust_pos [OF n this] have q: "min_p_value n_iter \<le> ?q" "?q \<le> 1" by simp_all
  from log_ratio_range [OF min_p_value_pos min_p_value_less_1 [OF n] q]
  show ?thesis using P C by blast
qed

lemma min_p_value_0: "min_p_value 0 = 1"
  by (simp add: min_p_value_def)

lemma p_value_cell_0:
  "(let p = np_div (Fin (real c)) (Fin (real (0::nat)))
    in if np_ge p (Fin (min_p_value 0)) then p else Fin (min_p_value 0))
   = (if c = 0 then Fin 1 else PInf)"
  by (simp add: min_p_value_0 np_ge_def)

lemma np_min_list_ge_1:
  "xs \<noteq> [] \<Longrightarrow> \<forall>x \<in> set xs. np_le (Fin 1) x \<Longrightarrow> np_le (Fin 1) (np_min_list xs)"
proof (induction xs rule: np_min_list.induct)
  case 1 then show ?case by simp
next
  case (2 x) then show ?case by simp
next
  case (3 x y zs)
  then have "np_le (Fin 1) (np_min_list (y # zs))" and "np_le (Fin 1) x" by simp_all
  then show ?case by (cases x; cases "np_min_list (y # zs)") (simp_all add: np_minimum_def)
qed

lemma cap_ge_1: "np_le (Fin 1) m \<Longrightarrow> (if np_gt m (Fin 1) then Fin 1 else m) = Fin 1"
  by (cases m) (auto simp: np_gt_def)

lemma bh_raw_ge_1:
  assumes all: "\<forall>p \<in> set ps. p = Fin 1 \<or> p = PInf" and q: "q \<in> set ps"
  shows "np_le (Fin 1) (bh_raw ps q)"
proof -
  have ne: "0 < length ps" using q by (cases ps) auto
  from all q consider "q = Fin 1" | "q = PInf" by blast
  then show ?thesis
  proof cases
    case 1
    have "q \<in> set (filter (\<lambda>r. np_le r q) ps)" using q 1 by simp
    then have r: "0 < bh_rank ps q" unfolding bh_rank_def by (rule length_pos_if_in_set)
    have "bh_rank ps q \<le> length ps" by (simp add: bh_rank_def)
    then have "real (bh_rank ps q) / real (length ps) \<le> 1" using ne by simp
    moreover have "0 < real (bh_rank ps q) / real (length ps)" using r ne by simp
    ultimately show ?thesis using 1 r ne by (simp add: bh_raw_def pos_le_divide_eq)
  next
    case 2
    then show ?thesis by (simp add: bh_raw_def)
  qed
qed

lemma fdr_bh_ones:
  assumes all: "\<forall>p \<in> set ps. p = Fin 1 \<or> p = PInf"
  shows "fdr_bh ps = map (\<lambda>_. Fin 1) ps"
proof -
  have "(let m = np_min_list (map (bh_raw ps) (filter (\<lambda>q. np_le p q) ps))
         in if np_gt m (Fin 1) then Fin 1 else m) = Fin 1" if p: "p \<in> set ps" for p
  proof -
    have "np_le p p" using all p by auto
    then have ne: "map (bh_raw ps) (filter (\<lambda>q. np_le p q) ps) \<noteq> []"
      using p by (auto simp: filter_empty_conv)
    have "\<forall>x \<in> set (map (bh_raw ps) (filter (\<lambda>q. np_le p q) ps)). np_le (Fin 1) x"
      using bh_raw_ge_1 [OF all] by auto
    from np_min_list_ge_1 [OF ne this] show ?thesis by (simp add: cap_ge_1 Let_def)
  qed
  then show ?thesis by (simp add: fdr_bh_def)
qed

lemma p_values_fdr_bh_0: "colvals (p_values_fdr_bh cc 0) = map (map (\<lambda>_. Fin 1)) (colvals cc)"
proof -
  have "fdr_bh (map (\<lambda>c. if c = 0 then Fin 1 else PInf) col) = map (\<lambda>_. Fin 1) col" for col :: "nat list"
    using fdr_bh_ones [of "map (\<lambda>c. if c = 0 then Fin 1 else PInf) col"] by (auto simp: comp_def)
  moreover have "(\<lambda>c. let p = np_div (Fin (real c)) (Fin (real (0::nat)))
              in if np_ge p (Fin (min_p_value 0)) then p else Fin (min_p_value 0))
        = (\<lambda>c. if c = 0 then Fin 1 else PInf)"
    using p_value_cell_0 by blast
  ultimately show ?thesis
    unfolding p_values_fdr_bh_def p_value_df_def frame_apply_def by simp
qed

lemma convertor_0: "colvals (convertor cc 0) = map (map (\<lambda>_. NaN)) (colvals cc)"
  unfolding convertor_def frame_apply_def
  by (simp add: p_values_fdr_bh_0 min_p_value_0 comp_def)



subsection \<open>Claims on \<^verbatim>\<open>convertor\<close>\<close>

text \<open>
  Claim C2. For every count matrix and every \<open>n_iter \<ge> 1\<close>, \<^verbatim>\<open>convertor\<close> returns the frame
  with the labels of the counts whose cells are \<open>log10(corrected_p) / log10(min_p)\<close>, where
  \<open>min_p = 1/(n_iter+1)\<close>, the raw p-value is \<open>counts/n_iter\<close> clipped below at \<open>min_p\<close>, and
  \<open>corrected_p\<close> is the Benjamini-Hochberg correction of each column on its own: the model of
  the code and the definition written from the spec agree, and no cell is an infinity or
  not-a-number. The counts need not be bounded by \<open>n_iter\<close> for this.
\<close>

theorem convertor_refines_spec:
  assumes "1 \<le> n_iter"
  shows "convertor compared_count n_iter =
           \<lparr>index = index compared_count, columns = columns compared_count,
            colvals = map (map Fin) (spec_convertor (colvals compared_count) n_iter)\<rparr>"
proof -
  have "index (convertor compared_count n_iter) = index compared_count"
    and "columns (convertor compared_count n_iter) = columns compared_count"
    by (simp_all add: convertor_def p_values_fdr_bh_def p_value_df_def frame_apply_def)
  then show ?thesis using convertor_spec [OF assms, of compared_count] by simp
qed

theorem convertor_refines_spec_witness:
  "(1::nat) \<le> 2 \<and>
   convertor ex_counts 2 =
     \<lparr>index = [IntL 0, IntL 1], columns = [StrL ''f''],
      colvals = [[Fin (log 10 (2 / 3) / log 10 (1 / 3)), Fin 0]]\<rparr>"
proof -
  have a: "spec_raw_p 2 0 = 1 / 3" "spec_raw_p 2 2 = 1"
    by (simp_all add: spec_raw_p_def spec_min_p_def)
  have b: "bh_adjust [1 / 3, 1] = [2 / 3, 1]"
    by (simp add: bh_adjust_def)
  have "spec_convertor [[0, 2]] 2 = [[log 10 (2 / 3) / log 10 (1 / 3), 0]]"
    unfolding spec_convertor_def by (simp add: a b spec_min_p_def)
  then show ?thesis
    using convertor_refines_spec [of 2 ex_counts] by (simp add: ex_counts_def)
qed

text \<open>
  Claim C3. For every \<open>n_iter \<ge> 1\<close> and every count matrix, every cell of the result of
  \<^verbatim>\<open>convertor\<close> is a number \<open>s\<close> with \<open>0 \<le> s \<le> 1\<close>, and \<open>s = 1\<close> exactly when the corrected
  p-value of the cell is \<open>min_p = 1/(n_iter+1)\<close>.
\<close>

theorem convertor_score_range:
  assumes "1 \<le> n_iter" and "j < length (colvals compared_count)"
    and "i < length (colvals compared_count ! j)"
  shows "\<exists>s q. colvals (convertor compared_count n_iter) ! j ! i = Fin s
             \<and> colvals (p_values_fdr_bh compared_count n_iter) ! j ! i = Fin q
             \<and> 0 \<le> s \<and> s \<le> 1 \<and> (s = 1 \<longleftrightarrow> q = min_p_value n_iter)"
  using assms by (rule convertor_score_range_aux)

theorem convertor_score_range_witness:
  "(1::nat) \<le> 2 \<and> (0::nat) < length (colvals ex_counts) \<and> (0::nat) < length (colvals ex_counts ! 0) \<and>
   (\<exists>s q. colvals (convertor ex_counts 2) ! 0 ! 0 = Fin s
          \<and> colvals (p_values_fdr_bh ex_counts 2) ! 0 ! 0 = Fin q
          \<and> 0 \<le> s \<and> s \<le> 1 \<and> (s = 1 \<longleftrightarrow> q = min_p_value 2))"
  using convertor_score_range [of 2 0 ex_counts 0] by (simp add: ex_counts_def)

text \<open>
  Claim C9, as stated, fails: with \<open>n_iter = 0\<close> the pipeline gives not-a-number, not \<open>0\<close>.
  On \<open>ex_graph\<close> and \<open>ex_data\<close> no trial runs, both count matrices are zero, and the single
  feature scores not-a-number on both nodes.
\<close>

theorem zero_iterations_counterexample:
  "SAFE ex_rng ex_graph ex_data 0 (1 / 2) None ''node'' ''enrich'' ''sum'' =
   Inr (Single \<lparr>index = [IntL 0, IntL 1], columns = [StrL ''f''], colvals = [[NaN, NaN]]\<rparr>)"
proof -
  have z: "zeros (Suc (Suc 0)) (Suc 0) = [[0, 0]]" by (simp add: zeros_def)
  have c: "convertor \<lparr>index = [IntL 0, IntL 1], columns = [StrL ''f''], colvals = [[0, 0]]\<rparr> 0
           = \<lparr>index = [IntL 0, IntL 1], columns = [StrL ''f''], colvals = [[NaN, NaN]]\<rparr>"
    using convertor_0 [of "\<lparr>index = [IntL 0, IntL 1], columns = [StrL ''f''], colvals = [[0, 0]]\<rparr>"]
    by (simp add: convertor_def p_values_fdr_bh_def p_value_df_def frame_apply_def)
  show ?thesis
    by (simp add: SAFE_def node_data_of_def score_frames_def DataFrame_def
        ex_graph_def ex_data_def nrows_def ncols_def z c)
qed

text \<open>
  Claim C9, amended. With \<open>n_iter = 0\<close>, \<open>min_p\<close> is \<open>1\<close> and the loop returns the counts it was
  given. The division \<open>count / 0\<close> is not guarded: it yields not-a-number for a zero count (an
  infinity otherwise), which the clip at \<open>min_p\<close> replaces by \<open>1\<close> (an infinity is kept), every
  corrected p-value is \<open>1\<close>, and every score is \<open>log10(1) / log10(1) = 0 / 0\<close>, not-a-number.
\<close>

theorem zero_iterations_scores_nan:
  "min_p_value 0 = 1 \<and>
   permutation_loop rng g data nbh shuffle_by agg_mode scores [0..<0] counts = Inr counts \<and>
   colvals (p_values_fdr_bh compared_count 0) = map (map (\<lambda>c. Fin 1)) (colvals compared_count) \<and>
   colvals (convertor compared_count 0) = map (map (\<lambda>c. NaN)) (colvals compared_count)"
  by (simp add: min_p_value_0 p_values_fdr_bh_0 convertor_0)

theorem zero_iterations_scores_nan_witness:
  "min_p_value 0 = 1 \<and>
   permutation_loop ex_rng ex_graph ex_data [] ''node'' ''sum'' [[Fin 1, Fin (-1)]] [0..<0]
     (zeros 2 1, zeros 2 1) = Inr (zeros 2 1, zeros 2 1) \<and>
   colvals (p_values_fdr_bh ex_counts 0) = [[Fin 1, Fin 1]] \<and>
   colvals (convertor ex_counts 0) = [[NaN, NaN]]"
  using zero_iterations_scores_nan [where rng = ex_rng and g = ex_graph and data = ex_data
      and nbh = "[]" and shuffle_by = "''node''" and agg_mode = "''sum''"
      and scores = "[[Fin 1, Fin (-1)]]" and counts = "(zeros 2 1, zeros 2 1)"
      and compared_count = ex_counts]
  by (simp add: ex_counts_def)

section \<open>Properties of the permutation loop\<close>

lemma same_shape_length: "same_shape A B \<Longrightarrow> length A = length B"
  unfolding same_shape_def by (metis length_map)

lemma same_shape_nth: "same_shape A B \<Longrightarrow> j < length A \<Longrightarrow> length (A ! j) = length (B ! j)"
  unfolding same_shape_def by (metis length_map nth_map)

lemma same_shapeI:
  "length A = length B \<Longrightarrow> (\<And>j. j < length A \<Longrightarrow> length (A ! j) = length (B ! j)) \<Longrightarrow> same_shape A B"
  by (simp add: same_shape_def list_eq_iff_nth_eq)

lemma same_shape_sym: "same_shape A B \<Longrightarrow> same_shape B A"
  by (simp add: same_shape_def)

lemma same_shape_trans: "same_shape A B \<Longrightarrow> same_shape B C \<Longrightarrow> same_shape A C"
  by (simp add: same_shape_def)

lemma mask_incr_length:
  assumes "same_shape P S" and "same_shape S C"
  shows "length (mask_incr cmp P S C) = length C"
  using same_shape_length [OF assms(1)] same_shape_length [OF assms(2)]
  by (simp add: mask_incr_def)

lemma mask_incr_nth:
  assumes PS: "same_shape P S" and SC: "same_shape S C" and j: "j < length C"
  shows "mask_incr cmp P S C ! j =
           map (\<lambda>((p, s), c). if cmp p s then c + 1 else c) (zip (zip (P ! j) (S ! j)) (C ! j))"
  using same_shape_length [OF PS] same_shape_length [OF SC] j
  by (simp add: mask_incr_def)

lemma mask_incr_row_length:
  assumes PS: "same_shape P S" and SC: "same_shape S C" and j: "j < length C"
  shows "length (mask_incr cmp P S C ! j) = length (C ! j)"
proof -
  have l: "length P = length S" "length S = length C"
    using same_shape_length [OF PS] same_shape_length [OF SC] by simp_all
  have "length (P ! j) = length (S ! j)" using same_shape_nth [OF PS] j l by simp
  moreover have "length (S ! j) = length (C ! j)" using same_shape_nth [OF SC] j l by simp
  ultimately show ?thesis by (simp add: mask_incr_nth [OF PS SC j])
qed

lemma mask_incr_cell:
  assumes PS: "same_shape P S" and SC: "same_shape S C" and j: "j < length C" and i: "i < length (C ! j)"
  shows "mask_incr cmp P S C ! j ! i = (if cmp (P ! j ! i) (S ! j ! i) then C ! j ! i + 1 else C ! j ! i)"
proof -
  have l: "length P = length S" "length S = length C"
    using same_shape_length [OF PS] same_shape_length [OF SC] by simp_all
  have "length (P ! j) = length (S ! j)" using same_shape_nth [OF PS] j l by simp
  moreover have "length (S ! j) = length (C ! j)" using same_shape_nth [OF SC] j l by simp
  ultimately show ?thesis using i by (simp add: mask_incr_nth [OF PS SC j])
qed

lemma mask_incr_shape:
  assumes PS: "same_shape P S" and SC: "same_shape S C"
  shows "same_shape (mask_incr cmp P S C) C"
  by (rule same_shapeI) (simp_all add: mask_incr_length [OF PS SC] mask_incr_row_length [OF PS SC])

subsection \<open>The comparisons of numpy\<close>

lemma np_le_NaN_right: "np_le x NaN = False"
  by (cases x) simp_all

lemma np_ge_NaN: "np_ge x NaN = False" "np_ge NaN x = False"
  by (simp_all add: np_ge_def np_le_NaN_right)

lemma np_le_refl: "x \<noteq> NaN \<Longrightarrow> np_le x x"
  by (cases x) simp_all

lemma np_le_total: "x \<noteq> NaN \<Longrightarrow> y \<noteq> NaN \<Longrightarrow> np_le x y \<or> np_le y x"
  by (cases x; cases y) auto

subsection \<open>One tally\<close>

lemma tally_cells:
  assumes t: "tally P S counts = Inr counts'"
    and j: "j < length (fst counts)" and i: "i < length (fst counts ! j)"
  shows "fst counts' ! j ! i = (if np_ge (P ! j ! i) (S ! j ! i) then fst counts ! j ! i + 1 else fst counts ! j ! i)"
    and "snd counts' ! j ! i = (if np_le (P ! j ! i) (S ! j ! i) then snd counts ! j ! i + 1 else snd counts ! j ! i)"
    and "same_shape (fst counts') (fst counts)"
    and "same_shape (snd counts') (snd counts)"
    and "same_shape (fst counts) (snd counts)"
proof -
  from t have PS: "same_shape P S" and SE: "same_shape S (fst counts)" and SD: "same_shape S (snd counts)"
    and e: "fst counts' = mask_incr np_ge P S (fst counts)"
    and d: "snd counts' = mask_incr np_le P S (snd counts)"
    by (auto simp: tally_def split: if_splits)
  show ed: "same_shape (fst counts) (snd counts)"
    using SE SD by (meson same_shape_sym same_shape_trans)
  have jd: "j < length (snd counts)" using j same_shape_length [OF ed] by simp
  have id: "i < length (snd counts ! j)" using i same_shape_nth [OF ed j] by simp
  show "fst counts' ! j ! i = (if np_ge (P ! j ! i) (S ! j ! i) then fst counts ! j ! i + 1 else fst counts ! j ! i)"
    unfolding e by (rule mask_incr_cell [OF PS SE j i])
  show "snd counts' ! j ! i = (if np_le (P ! j ! i) (S ! j ! i) then snd counts ! j ! i + 1 else snd counts ! j ! i)"
    unfolding d by (rule mask_incr_cell [OF PS SD jd id])
  show "same_shape (fst counts') (fst counts)" unfolding e by (rule mask_incr_shape [OF PS SE])
  show "same_shape (snd counts') (snd counts)" unfolding d by (rule mask_incr_shape [OF PS SD])
qed

lemma tally_step:
  assumes inv: "tally_inv k counts" and t: "tally P S counts = Inr counts'"
  shows "tally_inv (Suc k) counts' \<and> same_shape (fst counts') (fst counts)"
proof -
  from t have PS: "same_shape P S" and SE: "same_shape S (fst counts)" and SD: "same_shape S (snd counts)"
    and e: "fst counts' = mask_incr np_ge P S (fst counts)"
    and d: "snd counts' = mask_incr np_le P S (snd counts)"
    by (auto simp: tally_def split: if_splits)
  have she: "same_shape (fst counts') (fst counts)" unfolding e by (rule mask_incr_shape [OF PS SE])
  have shd: "same_shape (snd counts') (snd counts)" unfolding d by (rule mask_incr_shape [OF PS SD])
  have ed: "same_shape (fst counts) (snd counts)" using inv by (simp add: tally_inv_def)
  have sh: "same_shape (fst counts') (snd counts')"
    using she ed shd by (meson same_shape_sym same_shape_trans)
  have cells: "fst counts' ! j ! i \<le> Suc k \<and> snd counts' ! j ! i \<le> Suc k"
    if j: "j < length (fst counts')" and i: "i < length (fst counts' ! j)" for j i
  proof -
    have je: "j < length (fst counts)" using j same_shape_length [OF she] by simp
    have ie: "i < length (fst counts ! j)" using i same_shape_nth [OF she j] by simp
    have old: "fst counts ! j ! i \<le> k \<and> snd counts ! j ! i \<le> k"
      using inv je ie by (simp add: tally_inv_def)
    show ?thesis using tally_cells(1,2) [OF t je ie] old by auto
  qed
  show ?thesis using sh cells she by (simp add: tally_inv_def)
qed

subsection \<open>The loop\<close>

lemma trial_tally:
  assumes "trial draw g data nbh sb agg S counts = Inr counts'"
  shows "\<exists>p ps. permutation draw data g sb = Inr p \<and> neighborhood_score g p nbh agg = Inr ps
               \<and> tally ps S counts = Inr counts'"
  using assms by (auto simp: trial_def split: sum.splits)

lemma permutation_loop_inv:
  assumes "tally_inv k counts"
    and "permutation_loop rng g data nbh sb agg S ts counts = Inr counts'"
  shows "tally_inv (k + length ts) counts' \<and> same_shape (fst counts') (fst counts)"
  using assms
proof (induction ts arbitrary: k counts)
  case Nil
  then show ?case by (simp add: same_shape_def)
next
  case (Cons t ts)
  from Cons.prems(2) obtain c1 where
    t: "trial (rng t) g data nbh sb agg S counts = Inr c1"
    and l: "permutation_loop rng g data nbh sb agg S ts c1 = Inr counts'"
    by (auto split: sum.splits)
  from trial_tally [OF t] obtain p ps where ty: "tally ps S counts = Inr c1" by blast
  from tally_step [OF Cons.prems(1) ty] have i1: "tally_inv (Suc k) c1"
    and s1: "same_shape (fst c1) (fst counts)" by simp_all
  from Cons.IH [OF i1 l] have "tally_inv (Suc k + length ts) counts'"
    and "same_shape (fst counts') (fst c1)" by simp_all
  then show ?case using s1 by (auto intro: same_shape_trans)
qed

lemma permutation_loop_cell:
  assumes l: "permutation_loop rng g data nbh sb agg S ts counts = Inr counts'"
    and j: "j < length (fst counts)" and i: "i < length (fst counts ! j)"
  shows "(S ! j ! i = NaN \<longrightarrow>
            fst counts' ! j ! i = fst counts ! j ! i \<and> snd counts' ! j ! i = snd counts ! j ! i) \<and>
         (S ! j ! i \<noteq> NaN \<longrightarrow>
            (\<forall>t\<in>set ts. \<forall>p ps. permutation (rng t) data g sb = Inr p \<longrightarrow>
                neighborhood_score g p nbh agg = Inr ps \<longrightarrow> ps ! j ! i \<noteq> NaN) \<longrightarrow>
            m \<le> fst counts ! j ! i + snd counts ! j ! i \<longrightarrow>
            m + length ts \<le> fst counts' ! j ! i + snd counts' ! j ! i)"
  using l j i
proof (induction ts arbitrary: m counts)
  case Nil
  then show ?case by simp
next
  case (Cons t ts)
  from Cons.prems(1) obtain c1 where
    t: "trial (rng t) g data nbh sb agg S counts = Inr c1"
    and l: "permutation_loop rng g data nbh sb agg S ts c1 = Inr counts'"
    by (auto split: sum.splits)
  from trial_tally [OF t] obtain p ps where
    pp: "permutation (rng t) data g sb = Inr p" and ns: "neighborhood_score g p nbh agg = Inr ps"
    and ty: "tally ps S counts = Inr c1" by blast
  note c = tally_cells [OF ty Cons.prems(2) Cons.prems(3)]
  have j1: "j < length (fst c1)" using Cons.prems(2) same_shape_length [OF c(3)] by simp
  have i1: "i < length (fst c1 ! j)" using Cons.prems(3) same_shape_nth [OF c(3) j1] by simp
  note IH = Cons.IH [OF l j1 i1]
  show ?case
  proof (intro conjI impI)
    assume nan: "S ! j ! i = NaN"
    then have "fst c1 ! j ! i = fst counts ! j ! i" "snd c1 ! j ! i = snd counts ! j ! i"
      using c(1,2) by (simp_all add: np_ge_NaN np_le_NaN_right)
    then show "fst counts' ! j ! i = fst counts ! j ! i" "snd counts' ! j ! i = snd counts ! j ! i"
      using IH [of 0] nan by simp_all
  next
    assume num: "S ! j ! i \<noteq> NaN"
      and all: "\<forall>t\<in>set (t # ts). \<forall>p ps. permutation (rng t) data g sb = Inr p \<longrightarrow>
                neighborhood_score g p nbh agg = Inr ps \<longrightarrow> ps ! j ! i \<noteq> NaN"
      and m: "m \<le> fst counts ! j ! i + snd counts ! j ! i"
    from all pp ns have "ps ! j ! i \<noteq> NaN" by simp
    then have "np_ge (ps ! j ! i) (S ! j ! i) \<or> np_le (ps ! j ! i) (S ! j ! i)"
      using num np_le_total [of "ps ! j ! i" "S ! j ! i"] by (auto simp: np_ge_def)
    then have "Suc m \<le> fst c1 ! j ! i + snd c1 ! j ! i" using c(1,2) m by auto
    moreover have "\<forall>t\<in>set ts. \<forall>p ps. permutation (rng t) data g sb = Inr p \<longrightarrow>
                neighborhood_score g p nbh agg = Inr ps \<longrightarrow> ps ! j ! i \<noteq> NaN"
      using all by simp
    ultimately have "Suc m + length ts \<le> fst counts' ! j ! i + snd counts' ! j ! i"
      using IH [of "Suc m"] num by blast
    then show "m + length (t # ts) \<le> fst counts' ! j ! i + snd counts' ! j ! i" by simp
  qed
qed

lemma tally_inv_zeros: "tally_inv 0 (zeros r c, zeros r c)"
  by (simp add: tally_inv_def same_shape_def zeros_def)

lemma zeros_cell: "j < length (zeros r c) \<Longrightarrow> i < length (zeros r c ! j) \<Longrightarrow> zeros r c ! j ! i = 0"
  by (simp add: zeros_def)

lemma loop_nan_ex:
  "permutation_loop ex_rng ex_nan_graph ex_data [] ''node'' ''sum'' [[NaN, Fin 1]] [0..<2]
     (zeros 2 1, zeros 2 1) = Inr ([[0, 2]], [[0, 2]])"
proof -
  have z: "zeros 2 1 = [[0, 0]]" by (simp add: zeros_def numeral_2_eq_2)
  show ?thesis
    unfolding z
    by (simp add: upt_rec trial_def tally_def permutation_def apply_permutation_def
        ex_rng_def ex_nan_graph_def ex_graph_def ex_data_def nrows_def ncols_def same_shape_def
        mask_incr_def np_ge_def)
qed

text \<open>
  Claim C4, as stated, fails on a cell whose score is not-a-number: both comparisons of numpy
  are false there, so no trial increments either counter. On \<open>ex_nan_graph\<close> the score of node
  \<open>0\<close> is not-a-number, and after two trials its two counts are \<open>0\<close> and \<open>0\<close>, less than \<open>2\<close>
  together.
\<close>

theorem permutation_loop_nan_counterexample:
  "permutation_loop ex_rng ex_nan_graph ex_data [] ''node'' ''sum'' [[NaN, Fin 1]] [0..<2]
     (zeros 2 1, zeros 2 1) = Inr ([[0, 2]], [[0, 2]]) \<and>
   \<not> (2 :: nat) \<le> [[0, 2]] ! 0 ! 0 + [[0, 2]] ! 0 ! 0"
  using loop_nan_ex by simp

text \<open>
  Claim C4, amended. When the permutation loop of \<^verbatim>\<open>_SAFE\<close> has run its \<open>n_iter\<close> trials on the
  two zero matrices, both count matrices have the shape they started with and every count is at
  most \<open>n_iter\<close>. For a cell whose observed score and whose permuted score in every trial are
  numbers or infinities (none is not-a-number), the two counts add up to at least \<open>n_iter\<close>;
  for a cell whose observed score is not-a-number both counts are \<open>0\<close>. In one trial, a cell
  whose permuted score equals the observed score, which is not not-a-number, is incremented in
  both matrices.
\<close>

theorem permutation_loop_counts_numbers:
  "(permutation_loop rng g data nbh shuffle_by agg_mode scores [0..<n_iter] (zeros r c, zeros r c)
      = Inr (enrichments, decline) \<longrightarrow>
    same_shape enrichments (zeros r c) \<and> same_shape decline (zeros r c) \<and>
    (\<forall>j<length enrichments. \<forall>i<length (enrichments ! j).
        enrichments ! j ! i \<le> n_iter \<and> decline ! j ! i \<le> n_iter \<and>
        (scores ! j ! i = NaN \<longrightarrow> enrichments ! j ! i = 0 \<and> decline ! j ! i = 0) \<and>
        (scores ! j ! i \<noteq> NaN \<longrightarrow>
         (\<forall>t<n_iter. \<forall>p ps. permutation (rng t) data g shuffle_by = Inr p \<longrightarrow>
             neighborhood_score g p nbh agg_mode = Inr ps \<longrightarrow> ps ! j ! i \<noteq> NaN) \<longrightarrow>
         n_iter \<le> enrichments ! j ! i + decline ! j ! i))) \<and>
   (tally p_scores scores (enr, dec) = Inr (enr', dec') \<longrightarrow> j' < length enr \<longrightarrow> i' < length (enr ! j') \<longrightarrow>
    p_scores ! j' ! i' = scores ! j' ! i' \<longrightarrow> scores ! j' ! i' \<noteq> NaN \<longrightarrow>
    enr' ! j' ! i' = enr ! j' ! i' + 1 \<and> dec' ! j' ! i' = dec ! j' ! i' + 1)"
proof (intro conjI impI allI)
  assume l: "permutation_loop rng g data nbh shuffle_by agg_mode scores [0..<n_iter] (zeros r c, zeros r c)
      = Inr (enrichments, decline)"
  from permutation_loop_inv [OF tally_inv_zeros l]
  have inv: "tally_inv n_iter (enrichments, decline)" and sh: "same_shape enrichments (zeros r c)"
    by simp_all
  show "same_shape enrichments (zeros r c)" by (rule sh)
  show "same_shape decline (zeros r c)"
    using inv sh by (auto simp: tally_inv_def intro: same_shape_sym same_shape_trans)
  fix j i
  assume j: "j < length enrichments" and i: "i < length (enrichments ! j)"
  have jz: "j < length (zeros r c)" using j same_shape_length [OF sh] by simp
  have iz: "i < length (zeros r c ! j)" using i same_shape_nth [OF sh j] by simp
  have z: "zeros r c ! j ! i = 0" by (rule zeros_cell [OF jz iz])
  show "enrichments ! j ! i \<le> n_iter" "decline ! j ! i \<le> n_iter"
    using inv j i by (simp_all add: tally_inv_def)
  note cell = permutation_loop_cell [OF l, of j i 0, simplified, OF jz iz]
  {
    assume "scores ! j ! i = NaN"
    then show "enrichments ! j ! i = 0" "decline ! j ! i = 0" using cell z by simp_all
  }
  {
    assume "scores ! j ! i \<noteq> NaN"
      and "\<forall>t<n_iter. \<forall>p ps. permutation (rng t) data g shuffle_by = Inr p \<longrightarrow>
             neighborhood_score g p nbh agg_mode = Inr ps \<longrightarrow> ps ! j ! i \<noteq> NaN"
    then show "n_iter \<le> enrichments ! j ! i + decline ! j ! i" using cell by simp
  }
next
  assume t: "tally p_scores scores (enr, dec) = Inr (enr', dec')"
    and j: "j' < length enr" and i: "i' < length (enr ! j')"
    and eq: "p_scores ! j' ! i' = scores ! j' ! i'" and num: "scores ! j' ! i' \<noteq> NaN"
  have r: "np_ge (scores ! j' ! i') (scores ! j' ! i')" "np_le (scores ! j' ! i') (scores ! j' ! i')"
    using np_le_refl [OF num] by (simp_all add: np_ge_def)
  from tally_cells(1,2) [OF t, of j' i'] j i eq r
  show "enr' ! j' ! i' = enr ! j' ! i' + 1" "dec' ! j' ! i' = dec ! j' ! i' + 1" by simp_all
qed

lemma loop_ex:
  "permutation_loop ex_rng ex_graph ex_data [] ''node'' ''sum'' [[Fin 1, Fin (-1)]] [0..<2]
     (zeros 2 1, zeros 2 1) = Inr ([[0, 2]], [[2, 0]])"
proof -
  have z: "zeros 2 1 = [[0, 0]]" by (simp add: zeros_def numeral_2_eq_2)
  show ?thesis
    unfolding z
    by (simp add: upt_rec trial_def tally_def permutation_def apply_permutation_def
        permute_columns_def np_random_permutation_def ex_rng_def ex_graph_def ex_data_def
        nrows_def ncols_def same_shape_def mask_incr_def np_ge_def)
qed

lemma tally_ex:
  "tally [[Fin 1, Fin (-1)]] [[Fin 1, Fin (-1)]] ([[0, 0]], [[0, 0]]) = Inr ([[1, 1]], [[1, 1]])"
  by (simp add: tally_def same_shape_def mask_incr_def np_ge_def)

lemma ex_scores_numbers:
  "\<forall>t<2. \<forall>p ps. permutation (ex_rng t) ex_data ex_graph ''node'' = Inr p \<longrightarrow>
      neighborhood_score ex_graph p [] ''sum'' = Inr ps \<longrightarrow> ps ! 0 ! 1 \<noteq> NaN"
  by (auto simp: permutation_def apply_permutation_def permute_columns_def np_random_permutation_def
      ex_rng_def ex_graph_def ex_data_def nrows_def ncols_def)

theorem permutation_loop_counts_numbers_witness:
  "permutation_loop ex_rng ex_graph ex_data [] ''node'' ''sum'' [[Fin 1, Fin (-1)]] [0..<2]
     (zeros 2 1, zeros 2 1) = Inr ([[0, 2]], [[2, 0]]) \<and>
   same_shape [[0, 2 :: nat]] (zeros 2 1) \<and> same_shape [[2, 0 :: nat]] (zeros 2 1) \<and>
   [[0, 2]] ! 0 ! 1 \<le> (2 :: nat) \<and> [[2, 0]] ! 0 ! 1 \<le> (2 :: nat) \<and>
   [[Fin 1, Fin (-1)]] ! 0 ! 1 \<noteq> NaN \<and>
   (2 :: nat) \<le> [[0, 2]] ! 0 ! 1 + [[2, 0]] ! 0 ! 1 \<and>
   tally [[Fin 1, Fin (-1)]] [[Fin 1, Fin (-1)]] ([[0, 0]], [[0, 0]]) = Inr ([[1, 1]], [[1, 1]]) \<and>
   [[1, 1 :: nat]] ! 0 ! 1 = [[0, 0]] ! 0 ! 1 + 1"
  using permutation_loop_counts_numbers [where rng = ex_rng and g = ex_graph and data = ex_data
      and nbh = "[]" and shuffle_by = "''node''" and agg_mode = "''sum''"
      and scores = "[[Fin 1, Fin (-1)]]" and n_iter = 2 and r = 2 and c = 1
      and enrichments = "[[0, 2]]" and decline = "[[2, 0]]"
      and p_scores = "[[Fin 1, Fin (-1)]]" and enr = "[[0, 0]]" and dec = "[[0, 0]]"
      and enr' = "[[1, 1]]" and dec' = "[[1, 1]]" and j' = 0 and i' = 1]
    loop_ex tally_ex ex_scores_numbers
  by simp

section \<open>Properties of \<^verbatim>\<open>_permutation\<close>\<close>

lemma mset_np_random_permutation:
  assumes "mset draw = mset [0..<length col]"
  shows "mset (np_random_permutation draw col) = mset col"
    and "length (np_random_permutation draw col) = length col"
proof -
  have "mset (map (\<lambda>k. col ! k) draw) = image_mset (\<lambda>k. col ! k) (mset draw)" by simp
  also have "\<dots> = image_mset (\<lambda>k. col ! k) (mset [0..<length col])" using assms by simp
  also have "\<dots> = mset (map (\<lambda>k. col ! k) [0..<length col])" by simp
  also have "\<dots> = mset col" by (simp add: map_nth)
  finally show "mset (np_random_permutation draw col) = mset col"
    by (simp add: np_random_permutation_def)
  have "length draw = length [0..<length col]" using assms by (rule mset_eq_length)
  then show "length (np_random_permutation draw col) = length col"
    by (simp add: np_random_permutation_def)
qed

lemma permute_columns_labels:
  "index (permute_columns draw fr) = index fr" "columns (permute_columns draw fr) = columns fr"
  "length (colvals (permute_columns draw fr)) = length (colvals fr)"
  by (simp_all add: permute_columns_def)

lemma permute_columns_nth:
  "j < length (colvals fr) \<Longrightarrow>
   colvals (permute_columns draw fr) ! j = np_random_permutation (draw j) (colvals fr ! j)"
  by (simp add: permute_columns_def nth_enumerate_eq)

lemma permute_columns_mset:
  assumes "\<forall>j<length (colvals fr). mset (draw j) = mset [0..<length (colvals fr ! j)]"
    and "j < length (colvals fr)"
  shows "length (colvals (permute_columns draw fr) ! j) = length (colvals fr ! j)"
    and "mset (colvals (permute_columns draw fr) ! j) = mset (colvals fr ! j)"
  using assms by (simp_all add: permute_columns_nth mset_np_random_permutation)

text \<open>
  Claim C5, as stated, fails on a table with an empty axis. A table with the column \<open>f\<close> and no
  row has the row count of a graph without nodes, and the call raises \<^verbatim>\<open>ValueError\<close>; a table
  with two rows and no column has the row count of \<open>ex_graph\<close>, and the call returns the empty
  Series, which is no table of two rows.
\<close>

theorem permutation_empty_counterexample:
  "nrows ex_no_row = length (nodes ex_empty_graph) \<and>
   permutation (ex_rng 0) ex_no_row ex_empty_graph ''node'' = Inl ValueError \<and>
   nrows ex_no_column = length (nodes ex_graph) \<and>
   permutation (ex_rng 0) ex_no_column ex_graph ''node'' = Inr (Some (Series [] []))"
  by (simp add: permutation_def apply_permutation_def ex_no_row_def ex_no_column_def
      ex_empty_graph_def ex_graph_def nrows_def ncols_def)

text \<open>
  Claim C5, amended. Let the cell \<open>a\<close> hold a table with at least one row and at least one
  column whose row count is the node count of the graph, and let every draw of the generator
  be a permutation of the positions of its column. Then \<^verbatim>\<open>_permutation\<close> with
  \<^verbatim>\<open>shuffle_by='node'\<close> returns a new table with the labels and the shape of the input in which
  every column has the multiset of values of the input column, and the cell \<open>a\<close> holds the
  input table as before.
\<close>

theorem permutation_node_permutes_columns:
  assumes "cells h a = Some (Frame data)" and "a < next_addr h"
    and "nrows data = length (nodes g)" and "0 < nrows data" and "0 < ncols data"
    and "\<forall>j<length (colvals data). mset (draw j) = mset [0..<length (colvals data ! j)]"
  shows "\<exists>h' d r. permutation_call draw h a g ''node'' = (h', Inr (Some d))
           \<and> permutation draw data g ''node'' = Inr (Some (Frame r))
           \<and> cells h' d = Some (Frame r) \<and> d \<noteq> a \<and> cells h' a = Some (Frame data)
           \<and> index r = index data \<and> columns r = columns data
           \<and> length (colvals r) = length (colvals data)
           \<and> (\<forall>j<length (colvals data).
                 length (colvals r ! j) = length (colvals data ! j) \<and>
                 mset (colvals r ! j) = mset (colvals data ! j))"
proof -
  let ?r = "permute_columns draw data"
  let ?h1 = "h\<lparr>cells := (cells h)(next_addr h \<mapsto> Frame data), next_addr := Suc (next_addr h)\<rparr>"
  let ?h2 = "?h1\<lparr>cells := (cells ?h1)(next_addr ?h1 \<mapsto> Frame ?r), next_addr := Suc (next_addr ?h1)\<rparr>"
  have p: "permutation draw data g ''node'' = Inr (Some (Frame ?r))"
    using assms(3,4,5) by (simp add: permutation_def apply_permutation_def)
  have c: "permutation_call draw h a g ''node'' = (?h2, Inr (Some (Suc (next_addr h))))"
    using assms(1) p by (simp add: permutation_call_def alloc_def)
  have "cells ?h2 (Suc (next_addr h)) = Some (Frame ?r)" by simp
  moreover have "Suc (next_addr h) \<noteq> a" using assms(2) by simp
  moreover have "cells ?h2 a = Some (Frame data)" using assms(1,2) by simp
  moreover have "\<forall>j<length (colvals data).
                 length (colvals ?r ! j) = length (colvals data ! j) \<and>
                 mset (colvals ?r ! j) = mset (colvals data ! j)"
    using permute_columns_mset [OF assms(6)] by blast
  ultimately show ?thesis using p c permute_columns_labels [of draw data] by blast
qed

theorem permutation_node_permutes_columns_witness:
  "cells ex_heap 0 = Some (Frame ex_data) \<and> (0::nat) < next_addr ex_heap \<and>
   nrows ex_data = length (nodes ex_graph) \<and> 0 < nrows ex_data \<and> 0 < ncols ex_data \<and>
   mset (ex_rng 0 0) = mset [0..<length (colvals ex_data ! 0)] \<and>
   (\<exists>h' d r. permutation_call (ex_rng 0) ex_heap 0 ex_graph ''node'' = (h', Inr (Some d))
           \<and> permutation (ex_rng 0) ex_data ex_graph ''node'' = Inr (Some (Frame r))
           \<and> cells h' d = Some (Frame r) \<and> d \<noteq> 0 \<and> cells h' 0 = Some (Frame ex_data)
           \<and> index r = index ex_data \<and> columns r = columns ex_data
           \<and> length (colvals r) = length (colvals ex_data)
           \<and> length (colvals r ! 0) = length (colvals ex_data ! 0)
           \<and> mset (colvals r ! 0) = mset (colvals ex_data ! 0))"
proof -
  have 1: "cells ex_heap 0 = Some (Frame ex_data)" by (simp add: ex_heap_def)
  have 2: "(0::nat) < next_addr ex_heap" by (simp add: ex_heap_def)
  have 3: "nrows ex_data = length (nodes ex_graph)" by (simp add: nrows_def ex_data_def ex_graph_def)
  have 4: "0 < nrows ex_data" "0 < ncols ex_data" by (simp_all add: nrows_def ncols_def ex_data_def)
  have 5: "\<forall>j<length (colvals ex_data). mset (ex_rng 0 j) = mset [0..<length (colvals ex_data ! j)]"
    by (simp add: ex_data_def ex_rng_def upt_rec)
  have 6: "(0::nat) < length (colvals ex_data)" by (simp add: ex_data_def)
  from permutation_node_permutes_columns [OF 1 2 3 4 5] 1 2 3 4 5 6 show ?thesis by blast
qed

section \<open>Properties of \<^verbatim>\<open>_SAFE\<close> and \<^verbatim>\<open>SAFE_batch\<close>\<close>

subsection \<open>The sample axis\<close>

lemma trial_sample:
  "trial draw g data nbh ''sample'' agg_mode scores counts
   = spec_sample_trial draw g data nbh agg_mode scores counts"
  by (simp add: trial_def permutation_def spec_sample_trial_def split: sum.splits)

lemma permutation_loop_sample:
  "permutation_loop rng g data nbh ''sample'' agg_mode scores ts counts
   = spec_sample_trials rng g data nbh agg_mode scores ts counts"
proof (induction ts arbitrary: counts)
  case Nil
  show ?case by simp
next
  case (Cons t ts)
  show ?case by (simp add: trial_sample Cons.IH split: sum.splits)
qed

text \<open>
  Claim C6. With \<^verbatim>\<open>shuffle_by='sample'\<close>, \<^verbatim>\<open>_SAFE\<close> is the pipeline of the specification: the
  observed scores are aggregated from the sample-to-node transform of the data, and every one
  of the \<open>n_iter\<close> trials of its loop permutes the columns of the raw data, transforms the
  permuted table to node space, and only then aggregates it over the neighbourhoods and
  tallies it against the observed scores.
\<close>

theorem sample_axis_permutes_raw_data:
  "node_data_of g data ''sample'' = transform_sn g (Frame data) ''s2n'' \<and>
   trial draw g data nbh ''sample'' agg_mode scores counts
     = spec_sample_trial draw g data nbh agg_mode scores counts \<and>
   permutation_loop rng g data nbh ''sample'' agg_mode scores ts counts
     = spec_sample_trials rng g data nbh agg_mode scores ts counts \<and>
   SAFE rng g data n_iter nr_threshold neighborhoods ''sample'' mode agg_mode
     = spec_sample_SAFE rng g data n_iter nr_threshold neighborhoods mode agg_mode"
proof (intro conjI)
  show "node_data_of g data ''sample'' = transform_sn g (Frame data) ''s2n''"
    by (simp add: node_data_of_def)
  show "trial draw g data nbh ''sample'' agg_mode scores counts
     = spec_sample_trial draw g data nbh agg_mode scores counts"
    by (rule trial_sample)
  show "permutation_loop rng g data nbh ''sample'' agg_mode scores ts counts
     = spec_sample_trials rng g data nbh agg_mode scores ts counts"
    by (rule permutation_loop_sample)
  show "SAFE rng g data n_iter nr_threshold neighborhoods ''sample'' mode agg_mode
     = spec_sample_SAFE rng g data n_iter nr_threshold neighborhoods mode agg_mode"
    unfolding SAFE_def spec_sample_SAFE_def node_data_of_def
    by (simp add: permutation_loop_sample split: sum.splits)
qed

theorem sample_axis_permutes_raw_data_witness:
  "spec_sample_trial (ex_rng 0) ex_graph ex_data [(IntL 0, [IntL 0]), (IntL 1, [IntL 1])] ''sum''
     [[Fin 1, Fin 0]] ([[0, 0]], [[0, 0]]) = Inr ([[0, 1]], [[1, 1]]) \<and>
   trial (ex_rng 0) ex_graph ex_data [(IntL 0, [IntL 0]), (IntL 1, [IntL 1])] ''sample'' ''sum''
     [[Fin 1, Fin 0]] ([[0, 0]], [[0, 0]]) = Inr ([[0, 1]], [[1, 1]]) \<and>
   permutation_loop ex_rng ex_graph ex_data [(IntL 0, [IntL 0]), (IntL 1, [IntL 1])] ''sample'' ''sum''
     [[Fin 1, Fin 0]] [0, 1] ([[0, 0]], [[0, 0]]) = Inr ([[0, 2]], [[2, 2]]) \<and>
   SAFE ex_rng ex_graph ex_data 1 (1 / 2) None ''sample'' ''enrich'' ''sum'' =
     score_frames ex_graph ex_data
       \<lparr>index = [IntL 0, IntL 1], columns = [StrL ''f''], colvals = [[1, 0]]\<rparr> 1 ''enrich''
       ([[0, 1]], [[1, 1]])"
proof -
  let ?nbh = "[(IntL 0, [IntL 0]), (IntL 1, [IntL 1])]"
  have z: "zeros (Suc (Suc 0)) (Suc 0) = [[0, 0]]" by (simp add: zeros_def)
  have t: "spec_sample_trial (ex_rng t) ex_graph ex_data ?nbh ''sum'' [[Fin 1, Fin 0]] ([[a, b]], [[c, d]])
           = Inr ([[a, Suc b]], [[Suc c, Suc d]])" for t a b c d
    by (simp add: spec_sample_trial_def apply_permutation_def ex_graph_def ex_data_def ex_rng_def
        nrows_def ncols_def permute_columns_def np_random_permutation_def tally_def same_shape_def
        mask_incr_def np_ge_def)
  have nd: "transform_sn ex_graph (Frame ex_data) ''s2n''
            = Inr \<lparr>index = [IntL 0, IntL 1], columns = [StrL ''f''], colvals = [[1, 0]]\<rparr>"
    by (simp add: ex_graph_def ex_data_def)
  have nb: "get_neighborhoods ex_graph (1 / 2) = Inr ?nbh" by (simp add: ex_graph_def)
  have ob: "neighborhood_score ex_graph
              (Some (Frame \<lparr>index = [IntL 0, IntL 1], columns = [StrL ''f''], colvals = [[1, 0]]\<rparr>))
              ?nbh ''sum'' = Inr [[Fin 1, Fin 0]]"
    by (simp add: ex_graph_def)
  have s: "spec_sample_SAFE ex_rng ex_graph ex_data 1 (1 / 2) None ''enrich'' ''sum'' =
     score_frames ex_graph ex_data
       \<lparr>index = [IntL 0, IntL 1], columns = [StrL ''f''], colvals = [[1, 0]]\<rparr> 1 ''enrich''
       ([[0, 1]], [[1, 1]])"
    unfolding spec_sample_SAFE_def
    by (simp add: nd nb ob nrows_def ncols_def z t)
  have l: "spec_sample_trials ex_rng ex_graph ex_data ?nbh ''sum'' [[Fin 1, Fin 0]] [0, 1] ([[0, 0]], [[0, 0]])
           = Inr ([[0, 2]], [[2, 2]])"
    by (simp add: t)
  note th = sample_axis_permutes_raw_data [where g = ex_graph and data = ex_data and draw = "ex_rng 0"
      and nbh = ?nbh and agg_mode = "''sum''" and scores = "[[Fin 1, Fin 0]]"
      and counts = "([[0, 0]], [[0, 0]])" and mode = "''enrich''" and ts = "[0, 1]"
      and neighborhoods = None and nr_threshold = "1 / 2" and rng = ex_rng and n_iter = 1]
  from th have e2: "trial (ex_rng 0) ex_graph ex_data ?nbh ''sample'' ''sum'' [[Fin 1, Fin 0]] ([[0, 0]], [[0, 0]])
      = spec_sample_trial (ex_rng 0) ex_graph ex_data ?nbh ''sum'' [[Fin 1, Fin 0]] ([[0, 0]], [[0, 0]])"
    by (rule conjunct2 [THEN conjunct1])
  from th have e3: "permutation_loop ex_rng ex_graph ex_data ?nbh ''sample'' ''sum'' [[Fin 1, Fin 0]] [0, 1]
        ([[0, 0]], [[0, 0]])
      = spec_sample_trials ex_rng ex_graph ex_data ?nbh ''sum'' [[Fin 1, Fin 0]] [0, 1] ([[0, 0]], [[0, 0]])"
    by (rule conjunct2 [THEN conjunct2, THEN conjunct1])
  from th have e4: "SAFE ex_rng ex_graph ex_data 1 (1 / 2) None ''sample'' ''enrich'' ''sum''
      = spec_sample_SAFE ex_rng ex_graph ex_data 1 (1 / 2) None ''enrich'' ''sum''"
    by (rule conjunct2 [THEN conjunct2, THEN conjunct2])
  have t0: "spec_sample_trial (ex_rng 0) ex_graph ex_data ?nbh ''sum'' [[Fin 1, Fin 0]] ([[0, 0]], [[0, 0]])
      = Inr ([[0, 1]], [[1, 1]])"
    using t [of 0 0 0 0 0] by simp
  show ?thesis
  proof (intro conjI)
    show "spec_sample_trial (ex_rng 0) ex_graph ex_data ?nbh ''sum'' [[Fin 1, Fin 0]] ([[0, 0]], [[0, 0]])
      = Inr ([[0, 1]], [[1, 1]])" by (rule t0)
    show "trial (ex_rng 0) ex_graph ex_data ?nbh ''sample'' ''sum'' [[Fin 1, Fin 0]] ([[0, 0]], [[0, 0]])
      = Inr ([[0, 1]], [[1, 1]])" by (simp only: e2 t0)
    show "permutation_loop ex_rng ex_graph ex_data ?nbh ''sample'' ''sum'' [[Fin 1, Fin 0]] [0, 1]
        ([[0, 0]], [[0, 0]]) = Inr ([[0, 2]], [[2, 2]])" by (simp only: e3 l)
    show "SAFE ex_rng ex_graph ex_data 1 (1 / 2) None ''sample'' ''enrich'' ''sum'' =
     score_frames ex_graph ex_data
       \<lparr>index = [IntL 0, IntL 1], columns = [StrL ''f''], colvals = [[1, 0]]\<rparr> 1 ''enrich''
       ([[0, 1]], [[1, 1]])" by (simp only: e4 s)
  qed
qed

subsection \<open>The mode\<close>

text \<open>
  Claim C7, as stated, fails: \<^verbatim>\<open>SAFE_batch\<close> looks up the neighbourhoods and verifies the
  metadata before \<^verbatim>\<open>_SAFE\<close> checks the mode. With a mode that does not exist and metadata of
  one row for a graph of two nodes, the call ends in the error of the verification.
\<close>

theorem invalid_mode_counterexample:
  "''bogus'' \<notin> {''enrich'', ''decline'', ''both''} \<and>
   SAFE_batch spec_verify_metadata ex_rng ex_graph ex_short 1 (1 / 2) None ''node'' ''bogus'' ''sum''
     = Inl ShapeMismatch"
  by (simp add: SAFE_batch_def ex_graph_def ex_short_def spec_verify_metadata_def nrows_def)

text \<open>
  Claim C7, amended. For a mode other than \<^verbatim>\<open>enrich\<close>, \<^verbatim>\<open>decline\<close> and \<^verbatim>\<open>both\<close>, \<^verbatim>\<open>_SAFE\<close>
  fails with its mode error (a \<^verbatim>\<open>SyntaxError\<close>) whatever its other arguments are, so before any
  lookup, scoring or trial. \<^verbatim>\<open>SAFE_batch\<close> has no check of its own: it first looks up the
  neighbourhoods (when none are given) and verifies the metadata, fails with their error if
  one of them fails, and with the mode error of \<^verbatim>\<open>_SAFE\<close> otherwise.
\<close>

theorem invalid_mode_rejected:
  assumes "mode \<notin> {''enrich'', ''decline'', ''both''}"
  shows "SAFE rng g data n_iter nr_threshold neighborhoods shuffle_by mode agg_mode = Inl SyntaxError \<and>
         SAFE_batch verify_metadata rng g metadata n_iter nr_threshold neighborhoods shuffle_by mode agg_mode =
           (case (case neighborhoods of None \<Rightarrow> get_neighborhoods g nr_threshold | Some nb \<Rightarrow> Inr nb) of
              Inl e \<Rightarrow> Inl e
            | Inr nbh \<Rightarrow>
                (case verify_metadata g metadata (if shuffle_by = ''node'' then ''node'' else ''sample'') of
                   Inl e \<Rightarrow> Inl e
                 | Inr meta_data \<Rightarrow> Inl SyntaxError))"
proof -
  have s: "SAFE r g' d n t nb sb mode a = Inl SyntaxError" for r g' d n t nb sb a
    using assms by (simp add: SAFE_def)
  show ?thesis
    unfolding SAFE_batch_def by (simp add: s split: sum.splits)
qed

theorem invalid_mode_rejected_witness:
  "''bogus'' \<notin> {''enrich'', ''decline'', ''both''} \<and>
   SAFE ex_rng ex_graph ex_data 1 (1 / 2) None ''node'' ''bogus'' ''sum'' = Inl SyntaxError \<and>
   SAFE_batch spec_verify_metadata ex_rng ex_graph ex_data 1 (1 / 2) None ''node'' ''bogus'' ''sum''
     = Inl SyntaxError"
proof -
  have m: "''bogus'' \<notin> {''enrich'', ''decline'', ''both''}" by simp
  from invalid_mode_rejected [OF m, where rng = ex_rng and g = ex_graph and data = ex_data
      and n_iter = 1 and nr_threshold = "1 / 2" and neighborhoods = None and shuffle_by = "''node''"
      and agg_mode = "''sum''" and verify_metadata = spec_verify_metadata and metadata = ex_data]
  show ?thesis
    by (simp add: ex_graph_def ex_data_def spec_verify_metadata_def nrows_def)
qed

subsection \<open>An unknown shuffle axis\<close>

lemma permutation_unknown:
  "shuffle_by \<noteq> ''node'' \<Longrightarrow> shuffle_by \<noteq> ''sample'' \<Longrightarrow> permutation draw data g shuffle_by = Inr None"
  by (simp add: permutation_def)

lemma permutation_loop_unknown:
  assumes "shuffle_by \<noteq> ''node''" and "shuffle_by \<noteq> ''sample''"
  shows "permutation_loop rng g data nbh shuffle_by agg_mode scores ts counts
         = none_trials g nbh agg_mode scores ts counts"
proof (induction ts arbitrary: counts)
  case Nil
  show ?case by simp
next
  case (Cons t ts)
  show ?case
    by (simp add: trial_def permutation_unknown [OF assms] Cons.IH split: sum.splits)
qed

lemma SAFE_batch_unknown:
  assumes "shuffle_by \<noteq> ''node''" and "shuffle_by \<noteq> ''sample''"
  shows "SAFE_batch verify_metadata rng g metadata n_iter nr_threshold neighborhoods shuffle_by mode agg_mode
         = unknown_axis_batch verify_metadata g metadata n_iter nr_threshold neighborhoods shuffle_by mode
             agg_mode"
  unfolding SAFE_batch_def unknown_axis_batch_def SAFE_def node_data_of_def
  using assms by (simp add: permutation_loop_unknown [OF assms] split: sum.splits safe_scores.splits)

text \<open>
  Claim C10. For a shuffle axis other than \<^verbatim>\<open>node\<close> and \<^verbatim>\<open>sample\<close>, \<^verbatim>\<open>_permutation\<close> returns
  \<open>None\<close>, neither an error nor a table; for every axis other than \<^verbatim>\<open>node\<close>, \<^verbatim>\<open>SAFE_batch\<close>
  asks the verification for the axis \<^verbatim>\<open>sample\<close> only. An unknown axis is not rejected at
  entry: the call verifies the metadata as sample-space metadata, scores it as node data and
  runs the trials, each of which hands \<open>None\<close> to the neighbourhood score of the graph; with
  no trial to run it returns scores whenever the lookup, the verification and the observed
  scoring succeed and the metadata has one row for each node.
\<close>

theorem unknown_axis_not_rejected:
  "(shuffle_by \<noteq> ''node'' \<longrightarrow> shuffle_by \<noteq> ''sample'' \<longrightarrow>
      permutation draw data g shuffle_by = Inr None \<and>
      SAFE_batch verify_metadata rng g metadata n_iter nr_threshold neighborhoods shuffle_by mode agg_mode =
      unknown_axis_batch verify_metadata g metadata n_iter nr_threshold neighborhoods shuffle_by mode
        agg_mode) \<and>
   (shuffle_by \<noteq> ''node'' \<longrightarrow>
      SAFE_batch verify_metadata rng g metadata n_iter nr_threshold neighborhoods shuffle_by mode agg_mode =
      SAFE_batch (\<lambda>g' m by. verify_metadata g' m ''sample'') rng g metadata n_iter nr_threshold
        neighborhoods shuffle_by mode agg_mode) \<and>
   (shuffle_by \<noteq> ''node'' \<longrightarrow> shuffle_by \<noteq> ''sample'' \<longrightarrow>
      mode \<in> set [''enrich'', ''decline'', ''both''] \<longrightarrow>
      (case neighborhoods of None \<Rightarrow> get_neighborhoods g nr_threshold | Some nb \<Rightarrow> Inr nb) = Inr nbh \<longrightarrow>
      verify_metadata g metadata ''sample'' = Inr meta_data \<longrightarrow>
      neighborhood_score g (Some (Frame meta_data)) nbh agg_mode = Inr observed \<longrightarrow>
      nrows meta_data = length (nodes g) \<longrightarrow>
      (\<exists>g' s. SAFE_batch verify_metadata rng g metadata 0 nr_threshold neighborhoods shuffle_by mode
                 agg_mode = Inr (g', s)))"
proof (intro conjI impI)
  assume a: "shuffle_by \<noteq> ''node''" "shuffle_by \<noteq> ''sample''"
  show "permutation draw data g shuffle_by = Inr None" by (rule permutation_unknown [OF a])
  show "SAFE_batch verify_metadata rng g metadata n_iter nr_threshold neighborhoods shuffle_by mode agg_mode =
      unknown_axis_batch verify_metadata g metadata n_iter nr_threshold neighborhoods shuffle_by mode
        agg_mode"
    by (rule SAFE_batch_unknown [OF a])
next
  assume "shuffle_by \<noteq> ''node''"
  then show "SAFE_batch verify_metadata rng g metadata n_iter nr_threshold neighborhoods shuffle_by mode agg_mode =
      SAFE_batch (\<lambda>g' m by. verify_metadata g' m ''sample'') rng g metadata n_iter nr_threshold
        neighborhoods shuffle_by mode agg_mode"
    by (simp add: SAFE_batch_def)
next
  assume a: "shuffle_by \<noteq> ''node''" "shuffle_by \<noteq> ''sample''"
    and m: "mode \<in> set [''enrich'', ''decline'', ''both'']"
    and n: "(case neighborhoods of None \<Rightarrow> get_neighborhoods g nr_threshold | Some nb \<Rightarrow> Inr nb) = Inr nbh"
    and v: "verify_metadata g metadata ''sample'' = Inr meta_data"
    and s: "neighborhood_score g (Some (Frame meta_data)) nbh agg_mode = Inr observed"
    and r: "nrows meta_data = length (nodes g)"
  have "\<exists>sc. score_frames g meta_data meta_data 0 mode
               (zeros (nrows meta_data) (ncols meta_data), zeros (nrows meta_data) (ncols meta_data)) = Inr sc"
    using r by (simp add: score_frames_def DataFrame_def ncols_def Let_def)
  then obtain sc where sc: "score_frames g meta_data meta_data 0 mode
               (zeros (nrows meta_data) (ncols meta_data), zeros (nrows meta_data) (ncols meta_data)) = Inr sc"
    by blast
  have "\<exists>g' s. unknown_axis_batch verify_metadata g metadata 0 nr_threshold neighborhoods shuffle_by mode
                 agg_mode = Inr (g', s)"
    unfolding unknown_axis_batch_def using m n v s sc
    by (auto simp: Let_def split: safe_scores.splits)
  then show "\<exists>g' s. SAFE_batch verify_metadata rng g metadata 0 nr_threshold neighborhoods shuffle_by mode
                 agg_mode = Inr (g', s)"
    by (simp add: SAFE_batch_unknown [OF a])
qed

theorem unknown_axis_not_rejected_witness:
  "''feature'' \<noteq> ''node'' \<and> ''feature'' \<noteq> ''sample'' \<and>
   permutation (ex_rng 0) ex_data ex_graph ''feature'' = Inr None \<and>
   SAFE_batch spec_verify_metadata ex_rng ex_graph ex_data 0 (1 / 2) None ''feature'' ''enrich'' ''sum'' =
   unknown_axis_batch spec_verify_metadata ex_graph ex_data 0 (1 / 2) None ''feature'' ''enrich'' ''sum'' \<and>
   SAFE_batch spec_verify_metadata ex_rng ex_graph ex_data 0 (1 / 2) None ''feature'' ''enrich'' ''sum'' =
   SAFE_batch (\<lambda>g' m by. spec_verify_metadata g' m ''sample'') ex_rng ex_graph ex_data 0 (1 / 2) None
     ''feature'' ''enrich'' ''sum'' \<and>
   map_sum id snd
     (SAFE_batch spec_verify_metadata ex_rng ex_graph ex_data 0 (1 / 2) None ''feature'' ''enrich'' ''sum'')
     = Inr (Single \<lparr>index = [IntL 0, IntL 1], columns = [StrL ''f''], colvals = [[NaN, NaN]]\<rparr>) \<and>
   SAFE_batch spec_verify_metadata ex_rng ex_graph ex_data 1 (1 / 2) None ''feature'' ''enrich'' ''sum''
     = Inl (ExternalError 0)"
proof -
  have z: "zeros (Suc (Suc 0)) (Suc 0) = [[0, 0]]" by (simp add: zeros_def)
  have c: "convertor \<lparr>index = [IntL 0, IntL 1], columns = [StrL ''f''], colvals = [[0, 0]]\<rparr> 0
           = \<lparr>index = [IntL 0, IntL 1], columns = [StrL ''f''], colvals = [[NaN, NaN]]\<rparr>"
    using convertor_0 [of "\<lparr>index = [IntL 0, IntL 1], columns = [StrL ''f''], colvals = [[0, 0]]\<rparr>"]
    by (simp add: convertor_def p_values_fdr_bh_def p_value_df_def frame_apply_def)
  have u0: "map_sum id snd
     (unknown_axis_batch spec_verify_metadata ex_graph ex_data 0 (1 / 2) None ''feature'' ''enrich'' ''sum'')
     = Inr (Single \<lparr>index = [IntL 0, IntL 1], columns = [StrL ''f''], colvals = [[NaN, NaN]]\<rparr>)"
    by (simp add: unknown_axis_batch_def score_frames_def DataFrame_def
        spec_verify_metadata_def ex_graph_def ex_data_def nrows_def ncols_def z c)
  have u1: "unknown_axis_batch spec_verify_metadata ex_graph ex_data 1 (1 / 2) None ''feature'' ''enrich'' ''sum''
     = Inl (ExternalError 0)"
    by (simp add: unknown_axis_batch_def spec_verify_metadata_def ex_graph_def ex_data_def nrows_def ncols_def)
  have a: "''feature'' \<noteq> ''node''" "''feature'' \<noteq> ''sample''" by simp_all
  note th = unknown_axis_not_rejected [where shuffle_by = "''feature''" and draw = "ex_rng 0"
        and data = ex_data and g = ex_graph and verify_metadata = spec_verify_metadata
        and rng = ex_rng and metadata = ex_data and nr_threshold = "1 / 2"
        and neighborhoods = None and mode = "''enrich''" and agg_mode = "''sum''"]
  from th [where n_iter = 0] a
  have p: "permutation (ex_rng 0) ex_data ex_graph ''feature'' = Inr None"
    and b0: "SAFE_batch spec_verify_metadata ex_rng ex_graph ex_data 0 (1 / 2) None ''feature'' ''enrich'' ''sum'' =
       unknown_axis_batch spec_verify_metadata ex_graph ex_data 0 (1 / 2) None ''feature'' ''enrich'' ''sum''"
    and r0: "SAFE_batch spec_verify_metadata ex_rng ex_graph ex_data 0 (1 / 2) None ''feature'' ''enrich'' ''sum'' =
       SAFE_batch (\<lambda>g' m by. spec_verify_metadata g' m ''sample'') ex_rng ex_graph ex_data 0 (1 / 2) None
         ''feature'' ''enrich'' ''sum''"
    by blast+
  from th [where n_iter = 1] a
  have b1: "SAFE_batch spec_verify_metadata ex_rng ex_graph ex_data 1 (1 / 2) None ''feature'' ''enrich'' ''sum'' =
       unknown_axis_batch spec_verify_metadata ex_graph ex_data 1 (1 / 2) None ''feature'' ''enrich'' ''sum''"
    by blast
  show ?thesis
  proof (intro conjI)
    show "''feature'' \<noteq> ''node''" "''feature'' \<noteq> ''sample''" by (rule a)+
    show "permutation (ex_rng 0) ex_data ex_graph ''feature'' = Inr None" by (rule p)
    show "SAFE_batch spec_verify_metadata ex_rng ex_graph ex_data 0 (1 / 2) None ''feature'' ''enrich'' ''sum'' =
       unknown_axis_batch spec_verify_metadata ex_graph ex_data 0 (1 / 2) None ''feature'' ''enrich'' ''sum''"
      by (rule b0)
    show "SAFE_batch spec_verify_metadata ex_rng ex_graph ex_data 0 (1 / 2) None ''feature'' ''enrich'' ''sum'' =
       SAFE_batch (\<lambda>g' m by. spec_verify_metadata g' m ''sample'') ex_rng ex_graph ex_data 0 (1 / 2) None
         ''feature'' ''enrich'' ''sum''" by (rule r0)
    show "map_sum id snd
       (SAFE_batch spec_verify_metadata ex_rng ex_graph ex_data 0 (1 / 2) None ''feature'' ''enrich'' ''sum'')
       = Inr (Single \<lparr>index = [IntL 0, IntL 1], columns = [StrL ''f''], colvals = [[NaN, NaN]]\<rparr>)"
      by (simp only: b0 u0)
    show "SAFE_batch spec_verify_metadata ex_rng ex_graph ex_data 1 (1 / 2) None ''feature'' ''enrich'' ''sum''
       = Inl (ExternalError 0)" by (simp only: b1 u1)
  qed
qed

section \<open>Properties of \<^verbatim>\<open>get_significant_nodes\<close> and \<^verbatim>\<open>get_SAFE_summary\<close>\<close>

lemma centroids_are_all_rows:
  assumes "wf_frame fr"
  shows "map (\<lambda>(k, vlist). (k, filter (\<lambda>v. \<not> pd_isnull v) (map fst vlist))) (to_dict (where_ge fr t))
         = map (\<lambda>k. (k, filter (\<lambda>v. \<not> pd_isnull v) (index fr))) (columns fr)"
proof -
  have len: "length (colvals fr) = length (columns fr)"
    and rows: "\<And>col. col \<in> set (colvals fr) \<Longrightarrow> length col = length (index fr)"
    using assms by (auto simp: wf_frame_def list_all_iff)
  show ?thesis
  proof (rule nth_equalityI)
    show "length (map (\<lambda>(k, vlist). (k, filter (\<lambda>v. \<not> pd_isnull v) (map fst vlist))) (to_dict (where_ge fr t)))
          = length (map (\<lambda>k. (k, filter (\<lambda>v. \<not> pd_isnull v) (index fr))) (columns fr))"
      using len by (simp add: to_dict_def where_ge_def frame_apply_def)
  next
    fix i
    assume "i < length (map (\<lambda>(k, vlist). (k, filter (\<lambda>v. \<not> pd_isnull v) (map fst vlist))) (to_dict (where_ge fr t)))"
    then have i: "i < length (columns fr)" using len by (simp add: to_dict_def where_ge_def frame_apply_def)
    then have "colvals fr ! i \<in> set (colvals fr)" using len by simp
    then have "length (colvals fr ! i) = length (index fr)" by (rule rows)
    then show "map (\<lambda>(k, vlist). (k, filter (\<lambda>v. \<not> pd_isnull v) (map fst vlist))) (to_dict (where_ge fr t)) ! i
          = map (\<lambda>k. (k, filter (\<lambda>v. \<not> pd_isnull v) (index fr))) (columns fr) ! i"
      using i len by (simp add: to_dict_def where_ge_def frame_apply_def)
  qed
qed

text \<open>
  Claim C1 says that the significant centroids of a feature are the nodes whose score is at
  least the threshold. The code returns every node: on \<open>ex_scores\<close> with the threshold \<open>1/2\<close>
  node \<open>1\<close> has score \<open>0\<close> and is a centroid all the same, and the significant nodes are the
  neighbourhoods of both nodes.
\<close>

theorem significant_centroids_ignore_threshold:
  "get_significant_nodes ex_graph ex_scores (Some (Fin (1 / 2))) (1 / 2) (5 / 100) None True
   = Inr (Centroids_and_nodes [(StrL ''f'', [IntL 0, IntL 1])] [(StrL ''f'', {IntL 0, IntL 1})])"
  by (simp add: get_significant_nodes_def ex_graph_def ex_scores_def nrows_def resolve_threshold_def
        to_dict_def where_ge_def frame_apply_def getitem_def np_ge_def)

lemma safe_div_zero: "safe_div x (Fin 0) = NaN"
  by (simp add: safe_div_def)

lemma np_div_zero_total: "np_div (Fin x) (Fin 0) = NaN \<longleftrightarrow> x = 0"
  by simp

text \<open>
  Claim C8 says that the enriched abundance ratio of a feature whose metadata sum is zero is
  not-a-number. The code divides without the guard of \<^verbatim>\<open>_safe_div\<close>: on \<open>ex_data\<close> the feature
  sums to \<open>1 + (-1) = 0\<close>, the only significant sample has the value \<open>1\<close>, and the ratio is
  \<open>1 / 0\<close>, an infinity.
\<close>

theorem abundance_ratio_infinite:
  "get_SAFE_summary ex_graph ex_data ex_scores (Some 9) (1 / 10) (1 / 2) False =
   Inr (Table \<lparr>SAFE_total_score = [(StrL ''f'', Fin 1)],
               number_of_enriched_nodes = [(StrL ''f'', 2)],
               number_of_enriched_samples = [(StrL ''f'', 1)],
               SAFE_enriched_score = [(StrL ''f'', Fin 1)],
               enriched_abundance_ratio = [(StrL ''f'', PInf)],
               enriched_SAFE_score_ratio = [(StrL ''f'', Fin 1)]\<rparr>)"
  by (simp add: get_SAFE_summary_def get_significant_nodes_def ex_graph_def ex_scores_def ex_data_def
      nrows_def ncols_def resolve_threshold_def to_dict_def where_ge_def frame_apply_def getitem_def
      np_ge_def min_p_value_def transpose_frame_def loc_row_def loc_col_def pd_sum_def safe_div_def
      Let_def)

end
